theory Spec2Isabelle
  imports Main
begin

section \<open>Data of door\_monitor.py\<close>

text \<open>
  The script keeps two JSON files and talks to one Firestore collection. The files are
  modelled by the documents \<open>json.load\<close> returns from them: \<open>current_status.json\<close> holds
  a dictionary with the integer fields \<open>isOpen\<close>, \<open>lastOpened\<close>, \<open>lastClosed\<close>;
  \<open>day_data.json\<close> holds a dictionary from date strings to a dictionary with
  \<open>numOfOpenings\<close> and \<open>openings\<close>. A Python dictionary keeps insertion order and
  \<open>next(iter(d))\<close> reads its first key, so \<open>day_data\<close> is an association list.
  Python integers are unbounded: \<open>int\<close>.
\<close>

record status_data =
  isOpen :: int
  lastOpened :: int
  lastClosed :: int

record episode =
  opened :: int
  closed :: int

record day_entry =
  numOfOpenings :: int
  openings :: "episode list"

type_synonym day_data = "(string \<times> day_entry) list"

text \<open>
  The documents of the collection \<open>door_data\<close>: the one named \<open>current_status\<close> written
  by \<open>status_to_firebase\<close> (fields \<open>isOpen\<close>, \<open>lastOpened\<close>, \<open>lastClosed\<close>) and the
  ones named by a date written by \<open>send_full_data_to_db\<close> (fields \<open>num_of_openings\<close>,
  \<open>openings\<close>). They share one collection, so the store is one map from document ids.
\<close>

datatype doc = StatusDoc int int int | DayDoc int "episode list"

text \<open>
  The exceptions the code can meet: \<open>next(iter(d))\<close> on an empty dictionary, a file that
  cannot be read (missing, empty, not JSON), a missing dictionary key, a failed call of
  the remote store. All four are subclasses of Python's \<open>Exception\<close>.
\<close>

datatype exn = StopIteration | FileError | KeyError | RemoteError

text \<open>
  What a handler does to the outside, in the order it does it: a write of one of the two
  files, a \<open>set\<close> of a remote document (with whether the call went through) and an
  existence check of a remote document.
\<close>

datatype event =
    FileWriteStatus status_data
  | FileWriteDay day_data
  | RemoteSet string doc bool
  | RemoteGet string bool

text \<open>
  A file on disk, as the script can tell: \<open>Absent\<close> when the path does not exist or
  the file has size 0 (what lines 193 and 204 test), \<open>Garbled\<close> when it is not empty
  but \<open>json.load\<close> raises on it, \<open>Holds d\<close> when \<open>json.load\<close> returns \<open>d\<close>.
\<close>

datatype 'a json_file = Absent | Garbled | Holds 'a

text \<open>
  The world a handler runs in. \<open>net\<close> lists the outcomes of the remote calls to come,
  first call first (\<open>True\<close>: the call goes through, \<open>False\<close>: it raises); once the
  list is used up, calls go through. \<open>trace\<close> records the events so far, oldest first.
\<close>

record world =
  status_file :: "status_data json_file"
  day_file :: "day_data json_file"
  remote :: "string \<rightharpoonup> doc"
  net :: "bool list"
  trace :: "event list"

text \<open>
  The system clock as one handler run reads it: \<open>get_timestamp\<close> returns \<open>now\<close>,
  \<open>get_today_date\<close> returns \<open>today\<close> (a \<open>yyyy-mm-dd\<close> string). One run of a handler
  is taken to see one date.
\<close>

record env =
  now :: int
  today :: string

section \<open>The functions\<close>

definition get_timestamp :: "env \<Rightarrow> int" where
  "get_timestamp e = now e"

definition get_today_date :: "env \<Rightarrow> string" where
  "get_today_date e = today e"

definition get_day_data :: "world \<Rightarrow> exn + day_data" where
  "get_day_data w =
     (case day_file w of Holds d \<Rightarrow> Inr d | Absent \<Rightarrow> Inl FileError | Garbled \<Rightarrow> Inl FileError)"

definition get_status_data :: "world \<Rightarrow> exn + status_data" where
  "get_status_data w =
     (case status_file w of Holds s \<Rightarrow> Inr s | Absent \<Rightarrow> Inl FileError | Garbled \<Rightarrow> Inl FileError)"

text \<open>\<open>with open(CURRENT_STATUS_FILE, 'w') as file: json.dump(status_data, file)\<close>\<close>

definition write_status :: "status_data \<Rightarrow> world \<Rightarrow> world" where
  "write_status s w = w\<lparr>status_file := Holds s, trace := trace w @ [FileWriteStatus s]\<rparr>"

text \<open>\<open>with open(DAY_DATA_FILE, 'w') as file: json.dump(day_data, file)\<close>\<close>

definition write_day :: "day_data \<Rightarrow> world \<Rightarrow> world" where
  "write_day d w = w\<lparr>day_file := Holds d, trace := trace w @ [FileWriteDay d]\<rparr>"

text \<open>The outcome of the next remote call.\<close>

definition next_ok :: "bool list \<Rightarrow> bool" where
  "next_ok ns = (case ns of [] \<Rightarrow> True | b # _ \<Rightarrow> b)"

text \<open>\<open>db.collection("door_data").document(k).set(d)\<close>\<close>

definition remote_set :: "string \<Rightarrow> doc \<Rightarrow> world \<Rightarrow> exn option \<times> world" where
  "remote_set k d w =
     (if next_ok (net w)
      then (None, w\<lparr>remote := (remote w)(k \<mapsto> d), net := tl (net w),
                     trace := trace w @ [RemoteSet k d True]\<rparr>)
      else (Some RemoteError, w\<lparr>net := tl (net w),
                     trace := trace w @ [RemoteSet k d False]\<rparr>))"

text \<open>\<open>db.collection("door_data").document(k).get().exists\<close>\<close>

definition remote_exists :: "string \<Rightarrow> world \<Rightarrow> (exn + bool) \<times> world" where
  "remote_exists k w =
     (if next_ok (net w)
      then (Inr (remote w k \<noteq> None), w\<lparr>net := tl (net w),
                     trace := trace w @ [RemoteGet k True]\<rparr>)
      else (Inl RemoteError, w\<lparr>net := tl (net w),
                     trace := trace w @ [RemoteGet k False]\<rparr>))"

text \<open>\<open>next(iter(day_data))\<close>\<close>

definition first_key :: "day_data \<Rightarrow> exn + string" where
  "first_key d = (case d of [] \<Rightarrow> Inl StopIteration | (k, _) # _ \<Rightarrow> Inr k)"

text \<open>\<open>k in day_data\<close>\<close>

definition has_key :: "day_data \<Rightarrow> string \<Rightarrow> bool" where
  "has_key d k = (map_of d k \<noteq> None)"

text \<open>An update in place of the entry under \<open>k\<close>; the other entries and the order stay.\<close>

fun dict_modify :: "string \<Rightarrow> (day_entry \<Rightarrow> day_entry) \<Rightarrow> day_data \<Rightarrow> day_data" where
  "dict_modify k f [] = []"
| "dict_modify k f ((k', v) # d) =
     (if k' = k then (k', f v) # d else (k', v) # dict_modify k f d)"

text \<open>
  \<open>current_openings_to_json\<close>: the pair of timestamps of the status file becomes a new
  entry; it is appended under today's key when the dictionary has that key, and else the
  file is overwritten with a dictionary that has today's key only.
\<close>

definition current_openings_to_json :: "env \<Rightarrow> world \<Rightarrow> exn option \<times> world" where
  "current_openings_to_json e w =
     (case get_status_data w of
        Inl x \<Rightarrow> (Some x, w)
      | Inr status_data \<Rightarrow>
          let new_entry = \<lparr>opened = lastOpened status_data, closed = lastClosed status_data\<rparr> in
          (case get_day_data w of
             Inl x \<Rightarrow> (Some x, w)
           | Inr day_data \<Rightarrow>
               let today = get_today_date e in
               if has_key day_data today
               then (None, write_day
                       (dict_modify today
                          (\<lambda>en. en\<lparr>numOfOpenings := numOfOpenings en + 1,
                                   openings := openings en @ [new_entry]\<rparr>) day_data) w)
               else (None, write_day
                       [(today, \<lparr>numOfOpenings = 1, openings = [new_entry]\<rparr>)] w)))"

text \<open>
  \<open>try: ... except Exception as e: print(...)\<close>: whatever the body raised, the function
  returns normally, in the world the body left.
\<close>

definition swallow :: "exn option \<times> world \<Rightarrow> world" where
  "swallow r = (case r of (None, w) \<Rightarrow> w | (Some x, w) \<Rightarrow> w)"

definition status_to_firebase_body :: "world \<Rightarrow> exn option \<times> world" where
  "status_to_firebase_body w =
     (case get_status_data w of
        Inl x \<Rightarrow> (Some x, w)
      | Inr status_data \<Rightarrow>
          remote_set ''current_status''
            (StatusDoc (isOpen status_data) (lastOpened status_data) (lastClosed status_data)) w)"

definition status_to_firebase :: "world \<Rightarrow> world" where
  "status_to_firebase w = swallow (status_to_firebase_body w)"

definition send_full_data_to_db_body :: "world \<Rightarrow> exn option \<times> world" where
  "send_full_data_to_db_body w =
     (case get_day_data w of
        Inl x \<Rightarrow> (Some x, w)
      | Inr day_data \<Rightarrow>
          (case first_key day_data of
             Inl x \<Rightarrow> (Some x, w)
           | Inr date_id \<Rightarrow>
               (case map_of day_data date_id of
                  None \<Rightarrow> (Some KeyError, w)
                | Some en \<Rightarrow>
                    remote_set date_id (DayDoc (numOfOpenings en) (openings en)) w)))"

definition send_full_data_to_db :: "world \<Rightarrow> world" where
  "send_full_data_to_db w = swallow (send_full_data_to_db_body w)"

text \<open>
  \<open>update_status(status)\<close>: the handler of a door edge, \<open>status = 1\<close> for an opening and
  \<open>status = 0\<close> for a closing. Nothing in it is inside a \<open>try\<close>, so an exception of a
  file read or of \<open>next(iter(day_data))\<close> leaves the handler; the result is the exception,
  if any, and the world at that point.
\<close>

definition update_status :: "int \<Rightarrow> env \<Rightarrow> world \<Rightarrow> exn option \<times> world" where
  "update_status status e w =
     (case get_status_data w of
        Inl x \<Rightarrow> (Some x, w)
      | Inr status_data \<Rightarrow>
          if isOpen status_data = status then (None, w)
          else
            let sd1 = status_data\<lparr>isOpen := status\<rparr>;
                sd2 = (if status = 0 then sd1\<lparr>lastClosed := get_timestamp e\<rparr>
                       else sd1\<lparr>lastOpened := get_timestamp e\<rparr>);
                w1 = write_status sd2 w
            in
              if status = 0 \<and> lastOpened sd2 \<noteq> 0
              then
                (case get_day_data w1 of
                   Inl x \<Rightarrow> (Some x, w1)
                 | Inr day_data \<Rightarrow>
                     let today = get_today_date e in
                     (case first_key day_data of
                        Inl x \<Rightarrow> (Some x, w1)
                      | Inr date_id \<Rightarrow>
                          let w2 = (if today \<noteq> date_id then send_full_data_to_db w1 else w1) in
                          (case current_openings_to_json e w2 of
                             (Some x, w3) \<Rightarrow> (Some x, w3)
                           | (None, w3) \<Rightarrow> (None, status_to_firebase w3))))
              else (None, status_to_firebase w1))"

text \<open>
  \<open>new_day_is_here\<close>: the job the scheduler runs at 00:01. Its whole body is inside one
  \<open>try\<close>. When the remote store has a document under the first key of the day file, the
  body returns at once.
\<close>

definition zero_entry :: day_entry where
  "zero_entry = \<lparr>numOfOpenings = 0, openings = []\<rparr>"

definition new_day_is_here_body :: "env \<Rightarrow> world \<Rightarrow> exn option \<times> world" where
  "new_day_is_here_body e w =
     (case get_day_data w of
        Inl x \<Rightarrow> (Some x, w)
      | Inr day_data \<Rightarrow>
          (case first_key day_data of
             Inl x \<Rightarrow> (Some x, w)
           | Inr date_id \<Rightarrow>
               (case remote_exists date_id w of
                  (Inl x, w1) \<Rightarrow> (Some x, w1)
                | (Inr found, w1) \<Rightarrow>
                    if found then (None, w1)
                    else
                      let w2 = send_full_data_to_db w1 in
                      (None, write_day [(get_today_date e, zero_entry)] w2))))"

definition new_day_is_here :: "env \<Rightarrow> world \<Rightarrow> world" where
  "new_day_is_here e w = swallow (new_day_is_here_body e w)"

text \<open>
  The initialisation at the start of the script (lines 193 to 213): a file that is
  missing or has size 0 is created with its default document; any other file is left as
  it is, whether \<open>json.load\<close> can read it or not.
\<close>

definition init_status_file :: "world \<Rightarrow> world" where
  "init_status_file w =
     (if status_file w = Absent
      then write_status \<lparr>isOpen = 0, lastOpened = 0, lastClosed = 0\<rparr> w else w)"

definition init_day_file :: "env \<Rightarrow> world \<Rightarrow> world" where
  "init_day_file e w =
     (if day_file w = Absent then write_day [(get_today_date e, zero_entry)] w else w)"

definition initialise :: "env \<Rightarrow> world \<Rightarrow> world" where
  "initialise e w = init_day_file e (init_status_file w)"

section \<open>The JSON text of the day file\<close>

text \<open>
  Above, a file is the document \<open>json.load\<close> returns from it. This section goes one
  level down, to the text on disk: what \<open>json.dump(day_data, file)\<close> writes (lines 68,
  72 and 172) and what \<open>json.load(file)\<close> makes of a text (line 47). Both are functions
  of Python's \<open>json\<close> module, called with their default arguments; they are modelled for
  the values the script stores: integers, strings, lists and dictionaries with string
  keys. A character of the model is a code point below 256.
\<close>

datatype json = JInt int | JStr string | JArr "json list" | JObj "(string \<times> json) list"

subsection \<open>\<open>json.dump\<close>\<close>

text \<open>An integer is written in decimal, with a minus sign when negative.\<close>

definition digit_char :: "nat \<Rightarrow> char" where
  "digit_char n = char_of (48 + n)"

function digits :: "nat \<Rightarrow> string" where
  "digits n = (if n < 10 then [digit_char n] else digits (n div 10) @ [digit_char (n mod 10)])"
  by pat_completeness auto
termination
  by (relation "measure id") auto

definition show_int :: "int \<Rightarrow> string" where
  "show_int i = (if i < 0 then CHR ''-'' # digits (nat (- i)) else digits (nat i))"

text \<open>
  A string is written between double quotes. With \<open>ensure_ascii\<close>, the default, every
  character outside the range from the space to the tilde is escaped, and so are the
  double quote (0x22) and the backslash (0x5C): by a two-character escape where JSON has
  one, else by a backslash, the letter u, two zeros and two lower-case hexadecimal digits.
\<close>

definition hex_char :: "nat \<Rightarrow> char" where
  "hex_char n = (if n < 10 then char_of (48 + n) else char_of (87 + n))"

definition escape_char :: "char \<Rightarrow> string" where
  "escape_char c =
     (if c = CHR 0x22 then [CHR 0x5C, CHR 0x22]
      else if c = CHR 0x5C then [CHR 0x5C, CHR 0x5C]
      else if c = CHR 0x0A then [CHR 0x5C, CHR ''n'']
      else if c = CHR 0x0D then [CHR 0x5C, CHR ''r'']
      else if c = CHR 0x09 then [CHR 0x5C, CHR ''t'']
      else if c = CHR 0x08 then [CHR 0x5C, CHR ''b'']
      else if c = CHR 0x0C then [CHR 0x5C, CHR ''f'']
      else if 32 \<le> (of_char c :: nat) \<and> (of_char c :: nat) \<le> 126 then [c]
      else [CHR 0x5C, CHR ''u'', CHR ''0'', CHR ''0'',
            hex_char ((of_char c :: nat) div 16), hex_char ((of_char c :: nat) mod 16)])"

definition dump_str :: "string \<Rightarrow> string" where
  "dump_str s = CHR 0x22 # concat (map escape_char s) @ [CHR 0x22]"

text \<open>
  The items of a list and of a dictionary are separated by a comma and a space, a key
  and its value by a colon and a space (the default separators).
\<close>

fun join :: "string list \<Rightarrow> string" where
  "join [] = []"
| "join [x] = x"
| "join (x # y # ys) = x @ '', '' @ join (y # ys)"

fun dumps :: "json \<Rightarrow> string" where
  "dumps (JInt i) = show_int i"
| "dumps (JStr s) = dump_str s"
| "dumps (JArr vs) = ''['' @ join (map dumps vs) @ '']''"
| "dumps (JObj ms) = ''{'' @ join (map (\<lambda>(k, v). dump_str k @ '': '' @ dumps v) ms) @ ''}''"

subsection \<open>\<open>json.load\<close>\<close>

text \<open>
  A number: an optional minus sign, then either a single 0 or a digit from 1 to 9 and
  any further digits. When a fraction or an exponent follows, the number is a float, which
  is outside these values: the model gives \<open>None\<close>.
\<close>

definition is_digit :: "char \<Rightarrow> bool" where
  "is_digit c = (48 \<le> (of_char c :: nat) \<and> (of_char c :: nat) \<le> 57)"

definition digit_val :: "char \<Rightarrow> nat" where
  "digit_val c = of_char c - 48"

definition parse_nat :: "string \<Rightarrow> (nat \<times> string) option" where
  "parse_nat s =
     (case s of
        [] \<Rightarrow> None
      | c # r \<Rightarrow>
          if c = CHR ''0'' then Some (0, r)
          else if is_digit c
          then Some (foldl (\<lambda>a d. 10 * a + digit_val d) 0 (takeWhile is_digit s),
                     dropWhile is_digit s)
          else None)"

definition float_mark :: "string \<Rightarrow> bool" where
  "float_mark q = (case q of [] \<Rightarrow> False | c # _ \<Rightarrow> c = CHR ''.'' \<or> c = CHR ''e'' \<or> c = CHR ''E'')"

definition parse_int :: "string \<Rightarrow> (int \<times> string) option" where
  "parse_int s =
     (case (case s of
              [] \<Rightarrow> None
            | c # r \<Rightarrow>
                if c = CHR ''-'' then map_option (\<lambda>(n, q). (- int n, q)) (parse_nat r)
                else map_option (\<lambda>(n, q). (int n, q)) (parse_nat s)) of
        None \<Rightarrow> None
      | Some (i, q) \<Rightarrow> if float_mark q then None else Some (i, q))"

text \<open>
  The characters of a string, after its opening quote and up to the closing one. A
  backslash starts an escape: one of the eight two-character escapes, or \<open>u\<close> and four
  hexadecimal digits (a code point from 256 on is outside the model). A control character
  (below 0x20) ends the scan with an error.
\<close>

definition unhex :: "char \<Rightarrow> nat option" where
  "unhex c =
     (let n = (of_char c :: nat) in
      if 48 \<le> n \<and> n \<le> 57 then Some (n - 48)
      else if 97 \<le> n \<and> n \<le> 102 then Some (n - 87)
      else if 65 \<le> n \<and> n \<le> 70 then Some (n - 55)
      else None)"

definition hex4 :: "char \<Rightarrow> char \<Rightarrow> char \<Rightarrow> char \<Rightarrow> nat option" where
  "hex4 a b c d =
     (case (unhex a, unhex b, unhex c, unhex d) of
        (Some x, Some y, Some z, Some u) \<Rightarrow> Some (4096 * x + 256 * y + 16 * z + u)
      | _ \<Rightarrow> None)"

definition unescape :: "char \<Rightarrow> char option" where
  "unescape e =
     (if e = CHR 0x22 then Some (CHR 0x22)
      else if e = CHR 0x5C then Some (CHR 0x5C)
      else if e = CHR ''/'' then Some (CHR ''/'')
      else if e = CHR ''b'' then Some (CHR 0x08)
      else if e = CHR ''f'' then Some (CHR 0x0C)
      else if e = CHR ''n'' then Some (CHR 0x0A)
      else if e = CHR ''r'' then Some (CHR 0x0D)
      else if e = CHR ''t'' then Some (CHR 0x09)
      else None)"

definition cons_char :: "char \<Rightarrow> (string \<times> string) option \<Rightarrow> (string \<times> string) option" where
  "cons_char c r = map_option (\<lambda>(t, q). (c # t, q)) r"

fun parse_chars :: "string \<Rightarrow> (string \<times> string) option" where
  "parse_chars [] = None"
| "parse_chars (c # r) =
     (if c = CHR 0x22 then Some ([], r)
      else if c = CHR 0x5C then
        (case r of
           [] \<Rightarrow> None
         | e # r1 \<Rightarrow>
             if e = CHR ''u'' then
               (case r1 of
                  h1 # h2 # h3 # h4 # r2 \<Rightarrow>
                    (case hex4 h1 h2 h3 h4 of
                       None \<Rightarrow> None
                     | Some n \<Rightarrow> if n < 256 then cons_char (char_of n) (parse_chars r2) else None)
                | _ \<Rightarrow> None)
             else
               (case unescape e of
                  None \<Rightarrow> None
                | Some ch \<Rightarrow> cons_char ch (parse_chars r1)))
      else if (of_char c :: nat) < 32 then None
      else cons_char c (parse_chars r))"

text \<open>White space between the tokens is skipped: space, tab, line feed, carriage return.\<close>

definition is_ws :: "char \<Rightarrow> bool" where
  "is_ws c = (c = CHR '' '' \<or> c = CHR 0x09 \<or> c = CHR 0x0A \<or> c = CHR 0x0D)"

definition skip_ws :: "string \<Rightarrow> string" where
  "skip_ws s = dropWhile is_ws s"

text \<open>
  The pairs of an object become a Python dictionary: a key that comes again replaces the
  value of the first occurrence and keeps its place.
\<close>

fun dict_set :: "string \<Rightarrow> 'v \<Rightarrow> (string \<times> 'v) list \<Rightarrow> (string \<times> 'v) list" where
  "dict_set k v [] = [(k, v)]"
| "dict_set k v ((k', v') # d) = (if k' = k then (k', v) # d else (k', v') # dict_set k v d)"

definition dict_of :: "(string \<times> 'v) list \<Rightarrow> (string \<times> 'v) list" where
  "dict_of ps = foldl (\<lambda>d (k, v). dict_set k v d) [] ps"

text \<open>
  The scanner for a value, for the items after the opening bracket of a list and for the
  pairs after the opening brace of a dictionary. The first argument bounds the depth of
  the calls; \<open>loads\<close> gives it more than any text can use up. The words \<open>true\<close>,
  \<open>false\<close>, \<open>null\<close> and the float constants are outside these values: \<open>None\<close>.
\<close>

fun parse_value :: "nat \<Rightarrow> string \<Rightarrow> (json \<times> string) option"
  and parse_elems :: "nat \<Rightarrow> string \<Rightarrow> (json list \<times> string) option"
  and parse_members :: "nat \<Rightarrow> string \<Rightarrow> ((string \<times> json) list \<times> string) option"
where
  "parse_value 0 s = None"
| "parse_value (Suc n) s =
     (case s of
        [] \<Rightarrow> None
      | c # r \<Rightarrow>
          if c = CHR 0x22 then map_option (\<lambda>(t, q). (JStr t, q)) (parse_chars r)
          else if c = CHR ''['' then
            (case skip_ws r of
               [] \<Rightarrow> None
             | c' # r' \<Rightarrow>
                 if c' = CHR '']'' then Some (JArr [], r')
                 else map_option (\<lambda>(vs, q). (JArr vs, q)) (parse_elems n (c' # r')))
          else if c = CHR ''{'' then
            (case skip_ws r of
               [] \<Rightarrow> None
             | c' # r' \<Rightarrow>
                 if c' = CHR ''}'' then Some (JObj [], r')
                 else map_option (\<lambda>(ms, q). (JObj (dict_of ms), q)) (parse_members n (c' # r')))
          else map_option (\<lambda>(i, q). (JInt i, q)) (parse_int s))"
| "parse_elems 0 s = None"
| "parse_elems (Suc n) s =
     (case parse_value n s of
        None \<Rightarrow> None
      | Some (v, q) \<Rightarrow>
          (case skip_ws q of
             [] \<Rightarrow> None
           | c # r \<Rightarrow>
               if c = CHR '','' then map_option (\<lambda>(vs, q'). (v # vs, q')) (parse_elems n (skip_ws r))
               else if c = CHR '']'' then Some ([v], r)
               else None))"
| "parse_members 0 s = None"
| "parse_members (Suc n) s =
     (case s of
        [] \<Rightarrow> None
      | c # r \<Rightarrow>
          if c \<noteq> CHR 0x22 then None
          else
            (case parse_chars r of
               None \<Rightarrow> None
             | Some (k, q) \<Rightarrow>
                 (case skip_ws q of
                    [] \<Rightarrow> None
                  | c1 # r1 \<Rightarrow>
                      if c1 \<noteq> CHR '':'' then None
                      else
                        (case parse_value n (skip_ws r1) of
                           None \<Rightarrow> None
                         | Some (v, q2) \<Rightarrow>
                             (case skip_ws q2 of
                                [] \<Rightarrow> None
                              | c2 # r2 \<Rightarrow>
                                  if c2 = CHR '','' then
                                    map_option (\<lambda>(ms, q3). ((k, v) # ms, q3))
                                      (parse_members n (skip_ws r2))
                                  else if c2 = CHR ''}'' then Some ([(k, v)], r2)
                                  else None)))))"

text \<open>
  The whole text is one value, with white space allowed before and after it; anything
  else behind the value is an error.
\<close>

definition loads :: "string \<Rightarrow> json option" where
  "loads s =
     (case parse_value (2 * length s + 2) (skip_ws s) of
        None \<Rightarrow> None
      | Some (v, q) \<Rightarrow> if skip_ws q = [] then Some v else None)"


subsection \<open>The day dictionary as JSON\<close>

text \<open>
  The dictionaries the script builds, key by key in the order of their literals: an
  opening is \<open>{"opened": .., "closed": ..}\<close> (line 59), an entry is
  \<open>{"numOfOpenings": .., "openings": [..]}\<close> (lines 73 to 76), the day data maps dates
  to entries.
\<close>

definition json_of_episode :: "episode \<Rightarrow> json" where
  "json_of_episode ep = JObj [(''opened'', JInt (opened ep)), (''closed'', JInt (closed ep))]"

definition json_of_entry :: "day_entry \<Rightarrow> json" where
  "json_of_entry en =
     JObj [(''numOfOpenings'', JInt (numOfOpenings en)),
           (''openings'', JArr (map json_of_episode (openings en)))]"

definition json_of_day :: "day_data \<Rightarrow> json" where
  "json_of_day d = JObj (map (\<lambda>(k, en). (k, json_of_entry en)) d)"

text \<open>
  The other way, a loaded value is read by its keys, as the script reads it
  (\<open>day_data[date_id]["numOfOpenings"]\<close>); a value of another shape is not a day
  dictionary.
\<close>

definition episode_of_json :: "json \<Rightarrow> episode option" where
  "episode_of_json j =
     (case j of
        JObj fs \<Rightarrow>
          (case (map_of fs ''opened'', map_of fs ''closed'') of
             (Some (JInt a), Some (JInt b)) \<Rightarrow> Some \<lparr>opened = a, closed = b\<rparr>
           | _ \<Rightarrow> None)
      | _ \<Rightarrow> None)"

definition entry_of_json :: "json \<Rightarrow> day_entry option" where
  "entry_of_json j =
     (case j of
        JObj fs \<Rightarrow>
          (case (map_of fs ''numOfOpenings'', map_of fs ''openings'') of
             (Some (JInt n), Some (JArr es)) \<Rightarrow>
               map_option (\<lambda>l. \<lparr>numOfOpenings = n, openings = l\<rparr>)
                 (those (map episode_of_json es))
           | _ \<Rightarrow> None)
      | _ \<Rightarrow> None)"

definition day_of_json :: "json \<Rightarrow> day_data option" where
  "day_of_json j =
     (case j of
        JObj ms \<Rightarrow> those (map (\<lambda>(k, v). map_option (Pair k) (entry_of_json v)) ms)
      | _ \<Rightarrow> None)"

text \<open>
  The text \<open>json.dump(day_data, file)\<close> writes, and the state of the day file with a given
  text in it, in the terms of \<open>json_file\<close>: size 0, not loadable as a day dictionary, or
  holding one.
\<close>

definition json_dump_day :: "day_data \<Rightarrow> string" where
  "json_dump_day d = dumps (json_of_day d)"

definition day_file_of_text :: "string \<Rightarrow> day_data json_file" where
  "day_file_of_text t =
     (if t = [] then Absent
      else (case loads t of
              None \<Rightarrow> Garbled
            | Some j \<Rightarrow> (case day_of_json j of None \<Rightarrow> Garbled | Some d \<Rightarrow> Holds d)))"

text \<open>
  A value in which no dictionary has a key twice, as every Python dictionary is.
\<close>

fun wf_json :: "json \<Rightarrow> bool" where
  "wf_json (JInt i) = True"
| "wf_json (JStr s) = True"
| "wf_json (JArr vs) = (\<forall>v \<in> set vs. wf_json v)"
| "wf_json (JObj ms) = (distinct (map fst ms) \<and> (\<forall>m \<in> set ms. wf_json (snd m)))"

text \<open>
  For the proofs: a rest of the text that starts with a separator or is empty, a text
  that starts with the first character of a value or of a key, a rest that does not go on
  with a digit, and the text of one pair of a dictionary.
\<close>

definition sep :: "string \<Rightarrow> bool" where
  "sep q = (case q of [] \<Rightarrow> True | c # _ \<Rightarrow> c = CHR '','' \<or> c = CHR '']'' \<or> c = CHR ''}'')"

definition starts_ok :: "string \<Rightarrow> bool" where
  "starts_ok s = (case s of [] \<Rightarrow> False
                  | c # _ \<Rightarrow> \<not> is_ws c \<and> c \<noteq> CHR '']'' \<and> c \<noteq> CHR ''}'')"

definition dump_member :: "string \<times> json \<Rightarrow> string" where
  "dump_member m = dump_str (fst m) @ '': '' @ dumps (snd m)"

definition no_digit :: "string \<Rightarrow> bool" where
  "no_digit q = (case q of [] \<Rightarrow> True | c # _ \<Rightarrow> \<not> is_digit c)"

definition int_end :: "string \<Rightarrow> bool" where
  "int_end q = (no_digit q \<and> \<not> float_mark q)"

section \<open>Notions used in the statements and proofs\<close>

text \<open>
  The invariant of the day file: every entry counts as many openings as it lists. A file
  that is missing, empty or garbled holds no entry and does not satisfy it.
\<close>

definition entry_ok :: "day_entry \<Rightarrow> bool" where
  "entry_ok en = (numOfOpenings en = int (length (openings en)))"

definition day_inv :: "world \<Rightarrow> bool" where
  "day_inv w = (case day_file w of Holds d \<Rightarrow> list_all (\<lambda>(k, en). entry_ok en) d
                | Absent \<Rightarrow> False | Garbled \<Rightarrow> False)"

text \<open>Two worlds with the same local files (the remote side may differ).\<close>

definition same_files :: "world \<Rightarrow> world \<Rightarrow> bool" where
  "same_files w w' = (status_file w = status_file w' \<and> day_file w = day_file w')"

text \<open>
  The status record \<open>update_status\<close> writes on a real transition (lines 123 to 132), and
  the tail of its closing branch (lines 148 and 151): an exception of
  \<open>current_openings_to_json\<close> leaves the handler, else the status is pushed.
\<close>

definition stamped :: "int \<Rightarrow> env \<Rightarrow> status_data \<Rightarrow> status_data" where
  "stamped status e sd =
     (if status = 0 then sd\<lparr>isOpen := 0, lastClosed := now e\<rparr>
      else sd\<lparr>isOpen := status, lastOpened := now e\<rparr>)"

definition then_push :: "exn option \<times> world \<Rightarrow> exn option \<times> world" where
  "then_push r = (case r of (None, w3) \<Rightarrow> (None, status_to_firebase w3)
                  | (Some x, w3) \<Rightarrow> (Some x, w3))"

subsection \<open>Concrete worlds\<close>

text \<open>
  The door is closed, one opening is recorded under 2024-01-01, the remote store is
  empty and the next two remote calls fail.
\<close>

definition w_closed :: world where
  "w_closed = \<lparr>status_file = Holds \<lparr>isOpen = 0, lastOpened = 100, lastClosed = 200\<rparr>,
              day_file = Holds [(''2024-01-01'',
                 \<lparr>numOfOpenings = 1, openings = [\<lparr>opened = 100, closed = 200\<rparr>]\<rparr>)],
              remote = Map.empty, net = [False, False], trace = []\<rparr>"

text \<open>The door has been open since 250; the first remote call goes through, the second fails.\<close>

definition w_open :: world where
  "w_open = \<lparr>status_file = Holds \<lparr>isOpen = 1, lastOpened = 250, lastClosed = 200\<rparr>,
            day_file = Holds [(''2024-01-01'',
               \<lparr>numOfOpenings = 1, openings = [\<lparr>opened = 100, closed = 200\<rparr>]\<rparr>)],
            remote = Map.empty, net = [True, False], trace = []\<rparr>"

text \<open>The status file says open, but no opening was ever recorded.\<close>

definition w_never_opened :: world where
  "w_never_opened = \<lparr>status_file = Holds \<lparr>isOpen = 1, lastOpened = 0, lastClosed = 0\<rparr>,
            day_file = Holds [(''2024-01-01'', \<lparr>numOfOpenings = 0, openings = []\<rparr>)],
            remote = Map.empty, net = [False], trace = []\<rparr>"

text \<open>The remote store already has the document of the local day.\<close>

definition w_flushed :: world where
  "w_flushed = \<lparr>status_file = Holds \<lparr>isOpen = 0, lastOpened = 100, lastClosed = 200\<rparr>,
            day_file = Holds [(''2024-01-01'',
               \<lparr>numOfOpenings = 1, openings = [\<lparr>opened = 100, closed = 200\<rparr>]\<rparr>)],
            remote = [''2024-01-01'' \<mapsto> DayDoc 1 [\<lparr>opened = 100, closed = 200\<rparr>]],
            net = [], trace = []\<rparr>"

text \<open>The remote store is empty and every remote call goes through.\<close>

definition w_silent :: world where
  "w_silent = \<lparr>status_file = Holds \<lparr>isOpen = 0, lastOpened = 100, lastClosed = 200\<rparr>,
            day_file = Holds [(''2024-01-01'',
               \<lparr>numOfOpenings = 1, openings = [\<lparr>opened = 100, closed = 200\<rparr>]\<rparr>)],
            remote = Map.empty, net = [], trace = []\<rparr>"

text \<open>A non-empty file that \<open>json.load\<close> rejects.\<close>

definition w_garbled :: world where
  "w_garbled = \<lparr>status_file = Garbled, day_file = Garbled, remote = Map.empty, net = [],
                 trace = []\<rparr>"

text \<open>A day dictionary with one date and one opening.\<close>

definition day_one :: day_data where
  "day_one = [(''2024-01-01'',
                \<lparr>numOfOpenings = 1, openings = [\<lparr>opened = 100, closed = 200\<rparr>]\<rparr>)]"

text \<open>Before the first run: no file yet.\<close>

definition w_blank :: world where
  "w_blank = \<lparr>status_file = Absent, day_file = Absent, remote = Map.empty, net = [], trace = []\<rparr>"

definition e_day1 :: env where
  "e_day1 = \<lparr>now = 300, today = ''2024-01-01''\<rparr>"

definition e_day1_later :: env where
  "e_day1_later = \<lparr>now = 350, today = ''2024-01-01''\<rparr>"

definition e_day2 :: env where
  "e_day2 = \<lparr>now = 90000, today = ''2024-01-02''\<rparr>"

definition e_day3 :: env where
  "e_day3 = \<lparr>now = 180000, today = ''2024-01-03''\<rparr>"

section \<open>Basic facts\<close>

lemmas io_defs = get_status_data_def get_day_data_def write_status_def write_day_def
  remote_set_def remote_exists_def first_key_def has_key_def swallow_def
  get_timestamp_def get_today_date_def Let_def

lemma get_status_data_Inr: "get_status_data w = Inr sd \<longleftrightarrow> status_file w = Holds sd"
  by (simp add: get_status_data_def split: json_file.splits)

lemma get_day_data_Inr: "get_day_data w = Inr d \<longleftrightarrow> day_file w = Holds d"
  by (simp add: get_day_data_def split: json_file.splits)

lemma get_day_data_Inl: "get_day_data w = Inl x \<Longrightarrow> x = FileError"
  by (auto simp add: get_day_data_def split: json_file.splits)

lemma update_status_unreadable:
  assumes "get_status_data w = Inl x"
  shows "update_status status e w = (Some x, w)"
  using assms by (simp add: update_status_def)

lemma update_status_same:
  assumes "status_file w = Holds sd" and "isOpen sd = status"
  shows "update_status status e w = (None, w)"
  using assms by (simp add: update_status_def get_status_data_def)

text \<open>The two functions that talk to the remote store leave both files alone.\<close>

lemma status_to_firebase_files:
  "status_file (status_to_firebase w) = status_file w
   \<and> day_file (status_to_firebase w) = day_file w"
  by (auto simp add: status_to_firebase_def status_to_firebase_body_def io_defs
      split: option.splits json_file.splits)

lemma send_full_data_to_db_files:
  "status_file (send_full_data_to_db w) = status_file w
   \<and> day_file (send_full_data_to_db w) = day_file w"
  by (auto simp add: send_full_data_to_db_def send_full_data_to_db_body_def io_defs
      split: option.splits json_file.splits list.splits)

lemma write_status_files:
  "status_file (write_status s w) = Holds s \<and> day_file (write_status s w) = day_file w"
  by (simp add: write_status_def)

lemma current_openings_to_json_status_file:
  "status_file (snd (current_openings_to_json e w)) = status_file w"
  by (auto simp add: current_openings_to_json_def io_defs split: option.splits json_file.splits)

lemma current_openings_to_json_returns:
  assumes "status_file w = Holds sd" and "day_file w = Holds d"
  shows "fst (current_openings_to_json e w) = None"
  using assms by (simp add: current_openings_to_json_def io_defs)

text \<open>\<open>update_status\<close> on a real transition, branch by branch.\<close>

lemma update_status_changed:
  assumes "status_file w = Holds sd" and "isOpen sd \<noteq> status"
  shows "update_status status e w =
     (if status = 0 \<and> lastOpened sd \<noteq> 0
      then (case get_day_data w of
              Inl x \<Rightarrow> (Some x, write_status (stamped status e sd) w)
            | Inr d \<Rightarrow>
                (case d of
                   [] \<Rightarrow> (Some StopIteration, write_status (stamped status e sd) w)
                 | p # rest \<Rightarrow>
                     then_push (current_openings_to_json e
                       (if today e \<noteq> fst p
                        then send_full_data_to_db (write_status (stamped status e sd) w)
                        else write_status (stamped status e sd) w))))
      else (None, status_to_firebase (write_status (stamped status e sd) w)))"
  using assms
  by (auto simp add: update_status_def stamped_def then_push_def get_status_data_def
      get_day_data_def first_key_def get_timestamp_def get_today_date_def write_status_def Let_def
      split: option.splits json_file.splits list.splits sum.splits)

lemma update_status_push_only:
  assumes "status_file w = Holds sd" and "isOpen sd \<noteq> status"
    and "\<not> (status = 0 \<and> lastOpened sd \<noteq> 0)"
  shows "update_status status e w =
           (None, status_to_firebase (write_status (stamped status e sd) w))"
  using assms(3) unfolding update_status_changed [OF assms(1,2)] by (rule if_not_P)

lemma update_status_pairing:
  assumes "status_file w = Holds sd" and "isOpen sd \<noteq> status"
    and "status = 0 \<and> lastOpened sd \<noteq> 0"
  shows "update_status status e w =
     (case get_day_data w of
        Inl x \<Rightarrow> (Some x, write_status (stamped status e sd) w)
      | Inr d \<Rightarrow>
          (case d of
             [] \<Rightarrow> (Some StopIteration, write_status (stamped status e sd) w)
           | p # rest \<Rightarrow>
               then_push (current_openings_to_json e
                 (if today e \<noteq> fst p
                  then send_full_data_to_db (write_status (stamped status e sd) w)
                  else write_status (stamped status e sd) w))))"
  using assms(3) unfolding update_status_changed [OF assms(1,2)] by (rule if_P)

lemma then_push_fst: "fst (then_push r) = fst r"
  by (cases r) (auto simp add: then_push_def split: option.splits json_file.splits)

lemma then_push_files:
  "status_file (snd (then_push r)) = status_file (snd r)
   \<and> day_file (snd (then_push r)) = day_file (snd r)"
  by (cases r) (auto simp add: then_push_def status_to_firebase_files split: option.splits json_file.splits)

section \<open>Duplicate edges\<close>

text \<open>
  Claim C5. An edge whose state equals the stored \<open>isOpen\<close> leaves the status file and
  the day file as they are, and the handler does nothing to the outside: the trace gets
  no event, so no file is written, nothing is appended to the day file and no day
  document is sent to the remote store.
\<close>

theorem duplicate_edge_inert:
  assumes "status_file w = Holds sd" and "isOpen sd = status"
  shows "fst (update_status status e w) = None
       \<and> status_file (snd (update_status status e w)) = Holds sd
       \<and> day_file (snd (update_status status e w)) = day_file w
       \<and> trace (snd (update_status status e w)) = trace w"
  using assms by (simp add: update_status_same)

theorem duplicate_edge_inert_witness:
  "fst (update_status 0 e_day1 w_closed) = None
   \<and> status_file (snd (update_status 0 e_day1 w_closed))
       = Holds \<lparr>isOpen = 0, lastOpened = 100, lastClosed = 200\<rparr>
   \<and> day_file (snd (update_status 0 e_day1 w_closed)) = day_file w_closed
   \<and> trace (snd (update_status 0 e_day1 w_closed)) = trace w_closed"
  using duplicate_edge_inert
    [of w_closed "\<lparr>isOpen = 0, lastOpened = 100, lastClosed = 200\<rparr>" 0 e_day1]
  by (simp add: w_closed_def)

text \<open>
  Claim C10. On such a duplicate edge the status document is not pushed either: the
  remote store is the same afterwards, no remote call was made (the list of outcomes of
  the calls to come is untouched) and the trace has no new event.
\<close>

theorem duplicate_edge_no_status_push:
  assumes "status_file w = Holds sd" and "isOpen sd = status"
  shows "remote (snd (update_status status e w)) = remote w
       \<and> net (snd (update_status status e w)) = net w
       \<and> trace (snd (update_status status e w)) = trace w"
  using assms by (simp add: update_status_same)

theorem duplicate_edge_no_status_push_witness:
  "remote (snd (update_status 1 e_day1 w_open)) = remote w_open
   \<and> net (snd (update_status 1 e_day1 w_open)) = [True, False]
   \<and> trace (snd (update_status 1 e_day1 w_open)) = []"
  using duplicate_edge_no_status_push
    [of w_open "\<lparr>isOpen = 1, lastOpened = 250, lastClosed = 200\<rparr>" 1 e_day1]
  by (simp add: w_open_def)

section \<open>Closing edges\<close>

text \<open>
  Claim C6. A closing edge while the stored state is open and \<open>lastOpened\<close> is 0: the
  status record gets \<open>isOpen = 0\<close> and \<open>lastClosed = now\<close> and is written to the status
  file, the day file is left as it is (no entry appended, the count unchanged), and the
  only other event is the push of the status document.
\<close>

theorem close_without_open:
  assumes "status_file w = Holds sd" and "isOpen sd \<noteq> 0" and "lastOpened sd = 0"
  shows "fst (update_status 0 e w) = None
       \<and> status_file (snd (update_status 0 e w)) = Holds (sd\<lparr>isOpen := 0, lastClosed := now e\<rparr>)
       \<and> day_file (snd (update_status 0 e w)) = day_file w
       \<and> trace (snd (update_status 0 e w)) = trace w @
            [FileWriteStatus (sd\<lparr>isOpen := 0, lastClosed := now e\<rparr>),
             RemoteSet ''current_status'' (StatusDoc 0 0 (now e)) (next_ok (net w))]"
  using assms
  by (auto simp add: update_status_def status_to_firebase_def status_to_firebase_body_def io_defs)

theorem close_without_open_witness:
  "fst (update_status 0 e_day1 w_never_opened) = None
   \<and> status_file (snd (update_status 0 e_day1 w_never_opened))
       = Holds \<lparr>isOpen = 0, lastOpened = 0, lastClosed = 300\<rparr>
   \<and> day_file (snd (update_status 0 e_day1 w_never_opened))
       = Holds [(''2024-01-01'', \<lparr>numOfOpenings = 0, openings = []\<rparr>)]
   \<and> trace (snd (update_status 0 e_day1 w_never_opened)) =
        [FileWriteStatus \<lparr>isOpen = 0, lastOpened = 0, lastClosed = 300\<rparr>,
         RemoteSet ''current_status'' (StatusDoc 0 0 300) False]"
  using close_without_open
    [of w_never_opened "\<lparr>isOpen = 1, lastOpened = 0, lastClosed = 0\<rparr>" e_day1]
  by (simp add: w_never_opened_def e_day1_def next_ok_def)

text \<open>
  Claim C3. A closing edge while the stored state is open, \<open>lastOpened\<close> is not 0 and the
  day file is keyed by a date \<open>D\<close> other than today: the handler returns normally; after
  the write of the status file it calls the remote store to set the document \<open>D\<close> to the
  old count and openings (the flag of the event says whether the call went through), and
  only then writes the day file, which now has today's key only, with the count 1 and the
  one episode from \<open>lastOpened\<close> to now; the push of the status document comes last.
\<close>

theorem closing_edge_cross_day:
  assumes "status_file w = Holds sd" and "isOpen sd \<noteq> 0" and "lastOpened sd \<noteq> 0"
    and "day_file w = Holds [(D, en)]" and "D \<noteq> today e"
  shows "fst (update_status 0 e w) = None
       \<and> day_file (snd (update_status 0 e w)) =
           Holds [(today e, \<lparr>numOfOpenings = 1,
                   openings = [\<lparr>opened = lastOpened sd, closed = now e\<rparr>]\<rparr>)]
       \<and> trace (snd (update_status 0 e w)) = trace w @
            [FileWriteStatus (sd\<lparr>isOpen := 0, lastClosed := now e\<rparr>),
             RemoteSet D (DayDoc (numOfOpenings en) (openings en)) (next_ok (net w)),
             FileWriteDay [(today e, \<lparr>numOfOpenings = 1,
                   openings = [\<lparr>opened = lastOpened sd, closed = now e\<rparr>]\<rparr>)],
             RemoteSet ''current_status'' (StatusDoc 0 (lastOpened sd) (now e))
               (next_ok (tl (net w)))]"
  using assms
  by (auto simp add: update_status_def status_to_firebase_def status_to_firebase_body_def
      send_full_data_to_db_def send_full_data_to_db_body_def current_openings_to_json_def io_defs)

theorem closing_edge_cross_day_witness:
  "fst (update_status 0 e_day2 w_open) = None
   \<and> day_file (snd (update_status 0 e_day2 w_open)) =
       Holds [(''2024-01-02'', \<lparr>numOfOpenings = 1,
               openings = [\<lparr>opened = 250, closed = 90000\<rparr>]\<rparr>)]
   \<and> trace (snd (update_status 0 e_day2 w_open)) =
        [FileWriteStatus \<lparr>isOpen = 0, lastOpened = 250, lastClosed = 90000\<rparr>,
         RemoteSet ''2024-01-01'' (DayDoc 1 [\<lparr>opened = 100, closed = 200\<rparr>]) True,
         FileWriteDay [(''2024-01-02'', \<lparr>numOfOpenings = 1,
               openings = [\<lparr>opened = 250, closed = 90000\<rparr>]\<rparr>)],
         RemoteSet ''current_status'' (StatusDoc 0 250 90000) False]"
  using closing_edge_cross_day
    [of w_open "\<lparr>isOpen = 1, lastOpened = 250, lastClosed = 200\<rparr>" "''2024-01-01''"
        "\<lparr>numOfOpenings = 1, openings = [\<lparr>opened = 100, closed = 200\<rparr>]\<rparr>" e_day2]
  by (simp add: w_open_def e_day2_def next_ok_def)

text \<open>
  Claim C4. The door is closed and the day file is keyed by today's date \<open>D\<close>. An opening
  edge at \<open>t1\<close> and then a closing edge at \<open>t2\<close>, both on day \<open>D\<close>: both handlers return
  normally, the opening edge leaves the day file as it is, and after the closing edge the
  entry of \<open>D\<close> has exactly one more episode, from \<open>t1\<close> to \<open>t2\<close>, at the end of its list,
  and its count is one higher. \<open>t1\<close> is a timestamp, so it is not 0, the value that
  stands for "never recorded" in \<open>lastOpened\<close>; \<open>t2 > t1\<close> is not needed.
\<close>

theorem open_then_close_appends_one:
  assumes "status_file w = Holds sd" and "isOpen sd \<noteq> 1" and "day_file w = Holds [(D, en)]"
    and "today e1 = D" and "today e2 = D" and "now e1 = t1" and "now e2 = t2" and "t1 \<noteq> 0"
  shows "fst (update_status 1 e1 w) = None
       \<and> day_file (snd (update_status 1 e1 w)) = Holds [(D, en)]
       \<and> fst (update_status 0 e2 (snd (update_status 1 e1 w))) = None
       \<and> day_file (snd (update_status 0 e2 (snd (update_status 1 e1 w)))) =
           Holds [(D, \<lparr>numOfOpenings = numOfOpenings en + 1,
                      openings = openings en @ [\<lparr>opened = t1, closed = t2\<rparr>]\<rparr>)]"
proof -
  let ?sd1 = "sd\<lparr>isOpen := 1, lastOpened := t1\<rparr>"
  let ?w0 = "write_status ?sd1 w"
  have step1: "update_status 1 e1 w = (None, status_to_firebase ?w0)"
    using assms by (simp add: update_status_def io_defs)
  let ?w1 = "status_to_firebase ?w0"
  have s1: "status_file ?w1 = Holds ?sd1" and d1: "day_file ?w1 = Holds [(D, en)]"
    using assms by (simp_all add: status_to_firebase_files write_status_def)
  let ?sd2 = "?sd1\<lparr>isOpen := 0, lastClosed := t2\<rparr>"
  let ?w2 = "write_status ?sd2 ?w1"
  have s2: "status_file ?w2 = Holds ?sd2" and d2: "day_file ?w2 = Holds [(D, en)]"
    using d1 by (simp_all add: write_status_def)
  have c: "current_openings_to_json e2 ?w2 =
      (None, write_day [(D, \<lparr>numOfOpenings = numOfOpenings en + 1,
                      openings = openings en @ [\<lparr>opened = t1, closed = t2\<rparr>]\<rparr>)] ?w2)"
    using s2 d2 assms by (simp add: current_openings_to_json_def io_defs)
  have step2: "update_status 0 e2 ?w1 =
      (None, status_to_firebase (write_day [(D, \<lparr>numOfOpenings = numOfOpenings en + 1,
                      openings = openings en @ [\<lparr>opened = t1, closed = t2\<rparr>]\<rparr>)] ?w2))"
    using s1 d2 c assms
    by (simp add: update_status_def get_status_data_def get_day_data_def first_key_def
        get_timestamp_def get_today_date_def Let_def)
  show ?thesis
    using step1 step2 d1 by (simp add: status_to_firebase_files write_day_def)
qed

theorem open_then_close_appends_one_witness:
  "fst (update_status 1 e_day1 w_closed) = None
   \<and> day_file (snd (update_status 1 e_day1 w_closed)) = day_file w_closed
   \<and> fst (update_status 0 e_day1_later (snd (update_status 1 e_day1 w_closed))) = None
   \<and> day_file (snd (update_status 0 e_day1_later (snd (update_status 1 e_day1 w_closed)))) =
       Holds [(''2024-01-01'', \<lparr>numOfOpenings = 2,
               openings = [\<lparr>opened = 100, closed = 200\<rparr>, \<lparr>opened = 300, closed = 350\<rparr>]\<rparr>)]"
  using open_then_close_appends_one
    [of w_closed "\<lparr>isOpen = 0, lastOpened = 100, lastClosed = 200\<rparr>" "''2024-01-01''"
        "\<lparr>numOfOpenings = 1, openings = [\<lparr>opened = 100, closed = 200\<rparr>]\<rparr>"
        e_day1 e_day1_later 300 350]
  by (simp add: w_closed_def e_day1_def e_day1_later_def)

section \<open>The daily rollover\<close>

text \<open>
  Claim C1, as the code has it. When the job fires while the remote store already has a
  document under the key \<open>D\<close> of the day file, it sends no day document and it does not
  reset the day file either: both files and the remote store are as before, and the only
  event is the existence check of \<open>D\<close> (whether that call goes through or fails).
\<close>

theorem rollover_remote_present_skips:
  assumes "day_file w = Holds ((D, en) # rest)" and "remote w D \<noteq> None"
  shows "day_file (new_day_is_here e w) = day_file w
       \<and> status_file (new_day_is_here e w) = status_file w
       \<and> remote (new_day_is_here e w) = remote w
       \<and> trace (new_day_is_here e w) = trace w @ [RemoteGet D (next_ok (net w))]"
  using assms
  by (auto simp add: new_day_is_here_def new_day_is_here_body_def io_defs)

theorem rollover_remote_present_skips_witness:
  "day_file (new_day_is_here e_day2 w_flushed) =
       Holds [(''2024-01-01'',
               \<lparr>numOfOpenings = 1, openings = [\<lparr>opened = 100, closed = 200\<rparr>]\<rparr>)]
   \<and> remote (new_day_is_here e_day2 w_flushed) = remote w_flushed
   \<and> trace (new_day_is_here e_day2 w_flushed) = [RemoteGet ''2024-01-01'' True]"
  using rollover_remote_present_skips
    [of w_flushed "''2024-01-01''"
        "\<lparr>numOfOpenings = 1, openings = [\<lparr>opened = 100, closed = 200\<rparr>]\<rparr>" "[]" e_day2]
  by (simp add: w_flushed_def next_ok_def)

text \<open>
  The claim as the specification states it asks for a reset to today's empty entry in
  that situation. On 2024-01-02, with the day file keyed by 2024-01-01 and that document
  in the remote store, the day file is not reset.
\<close>

theorem rollover_remote_present_counterexample:
  "remote w_flushed ''2024-01-01'' \<noteq> None
   \<and> day_file w_flushed = Holds [(''2024-01-01'',
        \<lparr>numOfOpenings = 1, openings = [\<lparr>opened = 100, closed = 200\<rparr>]\<rparr>)]
   \<and> day_file (new_day_is_here e_day2 w_flushed) \<noteq>
        Holds [(today e_day2, \<lparr>numOfOpenings = 0, openings = []\<rparr>)]"
  by (simp add: new_day_is_here_def new_day_is_here_body_def io_defs next_ok_def
      w_flushed_def e_day2_def)

text \<open>
  Claim C2. The job fires on day \<open>T\<close> (\<open>today e\<close>) with the day file keyed by \<open>D\<close>, the
  remote store has no document \<open>D\<close>, and the two remote calls go through. Then exactly
  one document is set, under \<open>D\<close>, with the count and the openings of the local entry;
  the day file is reset to \<open>T\<close> with count 0 and no openings; and every remote document
  under a key other than \<open>D\<close> is as before, so none appears for a date between \<open>D\<close> and
  \<open>T\<close>. This holds for any \<open>D\<close> and \<open>T\<close>, in particular for \<open>D\<close> two or more days
  before \<open>T\<close>.
\<close>

theorem rollover_flush_and_reset:
  assumes "day_file w = Holds ((D, en) # rest)" and "remote w D = None"
    and "next_ok (net w)" and "next_ok (tl (net w))"
  shows "remote (new_day_is_here e w) = (remote w)(D \<mapsto> DayDoc (numOfOpenings en) (openings en))
       \<and> day_file (new_day_is_here e w) = Holds [(today e, \<lparr>numOfOpenings = 0, openings = []\<rparr>)]
       \<and> trace (new_day_is_here e w) = trace w @
            [RemoteGet D True,
             RemoteSet D (DayDoc (numOfOpenings en) (openings en)) True,
             FileWriteDay [(today e, \<lparr>numOfOpenings = 0, openings = []\<rparr>)]]
       \<and> (\<forall>k. k \<noteq> D \<longrightarrow> remote (new_day_is_here e w) k = remote w k)"
  using assms
  by (auto simp add: new_day_is_here_def new_day_is_here_body_def send_full_data_to_db_def
      send_full_data_to_db_body_def zero_entry_def io_defs)

theorem rollover_flush_and_reset_witness:
  "remote (new_day_is_here e_day3 w_silent) ''2024-01-01''
       = Some (DayDoc 1 [\<lparr>opened = 100, closed = 200\<rparr>])
   \<and> remote (new_day_is_here e_day3 w_silent) ''2024-01-02'' = None
   \<and> day_file (new_day_is_here e_day3 w_silent)
       = Holds [(''2024-01-03'', \<lparr>numOfOpenings = 0, openings = []\<rparr>)]
   \<and> trace (new_day_is_here e_day3 w_silent) =
        [RemoteGet ''2024-01-01'' True,
         RemoteSet ''2024-01-01'' (DayDoc 1 [\<lparr>opened = 100, closed = 200\<rparr>]) True,
         FileWriteDay [(''2024-01-03'', \<lparr>numOfOpenings = 0, openings = []\<rparr>)]]"
  using rollover_flush_and_reset
    [of w_silent "''2024-01-01''"
        "\<lparr>numOfOpenings = 1, openings = [\<lparr>opened = 100, closed = 200\<rparr>]\<rparr>" "[]" e_day3]
  by (simp add: w_silent_def e_day3_def next_ok_def)

section \<open>The count matches the list\<close>

lemma dict_modify_ok:
  assumes "list_all (\<lambda>(k, en). entry_ok en) d" and "\<And>en. entry_ok en \<Longrightarrow> entry_ok (f en)"
  shows "list_all (\<lambda>(k, en). entry_ok en) (dict_modify k f d)"
  using assms by (induction k f d rule: dict_modify.induct) auto

lemma day_inv_status_to_firebase: "day_inv (status_to_firebase w) = day_inv w"
  by (simp add: day_inv_def status_to_firebase_files)

lemma day_inv_send_full_data_to_db: "day_inv (send_full_data_to_db w) = day_inv w"
  by (simp add: day_inv_def send_full_data_to_db_files)

lemma day_inv_write_status: "day_inv (write_status s w) = day_inv w"
  by (simp add: day_inv_def write_status_def)

lemma day_inv_current_openings_to_json:
  assumes "day_inv w"
  shows "day_inv (snd (current_openings_to_json e w))"
proof -
  have app: "entry_ok en \<Longrightarrow>
      entry_ok (en\<lparr>numOfOpenings := numOfOpenings en + 1, openings := openings en @ [x]\<rparr>)"
    for en x by (simp add: entry_ok_def)
  have one: "entry_ok \<lparr>numOfOpenings = 1, openings = [x]\<rparr>" for x
    by (simp add: entry_ok_def)
  show ?thesis
    using assms
    by (auto simp add: current_openings_to_json_def day_inv_def io_defs app one
        intro!: dict_modify_ok split: option.splits json_file.splits)
qed

lemma day_inv_then_push:
  assumes "day_inv (snd r)"
  shows "day_inv (snd (then_push r))"
  using assms by (simp add: day_inv_def then_push_files)

lemma day_inv_update_status:
  assumes "day_inv w"
  shows "day_inv (snd (update_status status e w))"
proof (cases "get_status_data w")
  case (Inl x)
  with assms show ?thesis by (simp add: update_status_unreadable)
next
  case (Inr sd)
  then have Some: "status_file w = Holds sd" by (simp add: get_status_data_Inr)
  show ?thesis
  proof (cases "isOpen sd = status")
    case True
    with Some assms show ?thesis by (simp add: update_status_same)
  next
    case False
    let ?w1 = "write_status (stamped status e sd) w"
    have w1: "day_inv ?w1" using assms by (simp add: day_inv_write_status)
    show ?thesis
    proof (cases "status = 0 \<and> lastOpened sd \<noteq> 0")
      case c: False
      show ?thesis unfolding update_status_push_only [OF Some False c]
        using w1 by (simp add: day_inv_status_to_firebase)
    next
      case c: True
      obtain d where d: "day_file w = Holds d"
        using assms by (auto simp add: day_inv_def split: option.splits json_file.splits)
      have w2: "day_inv (if b then send_full_data_to_db ?w1 else ?w1)" for b
        using w1 by (simp add: day_inv_send_full_data_to_db)
      have d': "get_day_data w = Inr d" using d by (simp add: get_day_data_Inr)
      show ?thesis unfolding update_status_pairing [OF Some False c] d'
        using w1 w2
        by (auto simp add: day_inv_send_full_data_to_db
            intro!: day_inv_then_push day_inv_current_openings_to_json split: list.splits)
    qed
  qed
qed

lemma day_inv_new_day_is_here:
  assumes "day_inv w"
  shows "day_inv (new_day_is_here e w)"
  using assms
  by (auto simp add: new_day_is_here_def new_day_is_here_body_def day_inv_def io_defs
      zero_entry_def entry_ok_def send_full_data_to_db_files split: option.splits json_file.splits list.splits)

lemma day_inv_initialise:
  "(day_file w = Absent \<longrightarrow> day_inv (initialise e w)) \<and> (day_inv w \<longrightarrow> day_inv (initialise e w))"
  by (auto simp add: initialise_def init_day_file_def init_status_file_def day_inv_def
      write_status_def write_day_def zero_entry_def entry_ok_def get_today_date_def
      split: json_file.splits)

lemma initialise_day_file:
  "day_file (initialise e w) =
     (if day_file w = Absent then Holds [(today e, \<lparr>numOfOpenings = 0, openings = []\<rparr>)]
      else day_file w)"
  by (simp add: initialise_def init_day_file_def init_status_file_def write_status_def
      write_day_def zero_entry_def get_today_date_def)

text \<open>
  Claim C7. In every entry of the day file \<open>numOfOpenings\<close> equals the length of
  \<open>openings\<close>. The initialisation writes the day file only when it is missing or has
  size 0, and then the file has today's entry with count 0 and no openings, which
  satisfies the invariant; any other file it leaves as it is. When the invariant holds it
  still holds after the initialisation, after \<open>current_openings_to_json\<close> (the append
  and the overwrite for a new day), after \<open>update_status\<close> for any edge, and after
  \<open>new_day_is_here\<close> (the reset).
\<close>

theorem count_matches_length:
  "(day_file w0 = Absent \<longrightarrow>
        day_file (initialise e w0) = Holds [(today e, \<lparr>numOfOpenings = 0, openings = []\<rparr>)]
      \<and> day_inv (initialise e w0))
   \<and> (day_file w1 \<noteq> Absent \<longrightarrow> day_file (initialise e w1) = day_file w1)
   \<and> (day_inv w \<longrightarrow>
        day_inv (initialise e w)
      \<and> day_inv (snd (current_openings_to_json e w))
      \<and> day_inv (snd (update_status status e w))
      \<and> day_inv (new_day_is_here e w))"
  using day_inv_initialise [of w0 e] day_inv_initialise [of w e]
    initialise_day_file [of e w0] initialise_day_file [of e w1]
    day_inv_current_openings_to_json [of w e]
    day_inv_update_status [of w status e] day_inv_new_day_is_here [of w e]
  by simp

theorem count_matches_length_witness:
  "day_file w_blank = Absent
   \<and> day_file (initialise e_day2 w_blank)
       = Holds [(''2024-01-02'', \<lparr>numOfOpenings = 0, openings = []\<rparr>)]
   \<and> day_inv (initialise e_day2 w_blank)
   \<and> day_file w_garbled \<noteq> Absent
   \<and> day_file (initialise e_day2 w_garbled) = Garbled
   \<and> day_inv w_open
   \<and> day_inv (initialise e_day2 w_open)
   \<and> day_inv (snd (current_openings_to_json e_day2 w_open))
   \<and> day_inv (snd (update_status 0 e_day2 w_open))
   \<and> day_inv (new_day_is_here e_day2 w_open)"
proof -
  have a: "day_file w_blank = Absent" by (simp add: w_blank_def)
  have g: "day_file w_garbled = Garbled" by (simp add: w_garbled_def)
  have b: "day_inv w_open" by (simp add: w_open_def day_inv_def entry_ok_def)
  show ?thesis
    using a g b count_matches_length [of w_blank e_day2 w_garbled w_open 0]
    by (simp add: e_day2_def)
qed

section \<open>Remote failures\<close>

lemma current_openings_to_json_same_files:
  assumes "same_files w w'"
  shows "fst (current_openings_to_json e w) = fst (current_openings_to_json e w')
       \<and> same_files (snd (current_openings_to_json e w)) (snd (current_openings_to_json e w'))"
  using assms
  by (auto simp add: current_openings_to_json_def same_files_def io_defs split: option.splits json_file.splits)

lemma then_push_same_files:
  assumes "fst r = fst r'" and "same_files (snd r) (snd r')"
  shows "fst (then_push r) = fst (then_push r')
       \<and> same_files (snd (then_push r)) (snd (then_push r'))"
  using assms by (simp add: then_push_fst then_push_files same_files_def)

lemma update_status_returns:
  assumes "status_file w = Holds sd" and "day_file w = Holds d" and "d \<noteq> []"
  shows "fst (update_status status e w) = None"
proof (cases "isOpen sd = status")
  case True
  with assms show ?thesis by (simp add: update_status_same)
next
  case False
  obtain p rest where d: "d = p # rest"
    using assms(3) by (cases d) auto
  have c: "fst (current_openings_to_json e w') = None"
    if "status_file w' = Holds s'" and "day_file w' = Holds d" for w' s'
    using that by (rule current_openings_to_json_returns)
  show ?thesis
  proof (cases "status = 0 \<and> lastOpened sd \<noteq> 0")
    case p: False
    show ?thesis unfolding update_status_push_only [OF assms(1) False p] by simp
  next
    case p: True
    have gd: "get_day_data w = Inr d" using assms(2) by (simp add: get_day_data_Inr)
    show ?thesis unfolding update_status_pairing [OF assms(1) False p] gd
      using assms(2) d
      by (simp add: then_push_fst c write_status_files send_full_data_to_db_files)
  qed
qed

lemma update_status_status_file:
  assumes "status_file w = Holds sd" and "day_file w = Holds d" and "d \<noteq> []"
  shows "status_file (snd (update_status status e w)) =
     Holds (if isOpen sd = status then sd else stamped status e sd)"
proof (cases "isOpen sd = status")
  case True
  with assms show ?thesis by (simp add: update_status_same)
next
  case False
  obtain p rest where d: "d = p # rest"
    using assms(3) by (cases d) auto
  show ?thesis
  proof (cases "status = 0 \<and> lastOpened sd \<noteq> 0")
    case p: False
    show ?thesis unfolding update_status_push_only [OF assms(1) False p]
      using False by (simp add: status_to_firebase_files write_status_files)
  next
    case p: True
    have gd: "get_day_data w = Inr d" using assms(2) by (simp add: get_day_data_Inr)
    show ?thesis unfolding update_status_pairing [OF assms(1) False p] gd
      using assms(2) d False
      by (simp add: then_push_files current_openings_to_json_status_file write_status_files
          send_full_data_to_db_files)
  qed
qed

text \<open>
  What \<open>update_status\<close> returns and what it leaves in the two files depend on the files
  only, not on the remote store or on the outcomes of the remote calls.
\<close>

lemma update_status_same_files:
  assumes "same_files w w'"
  shows "fst (update_status status e w) = fst (update_status status e w')
       \<and> same_files (snd (update_status status e w)) (snd (update_status status e w'))"
proof (cases "get_status_data w")
  case (Inl x)
  moreover from this assms have "get_status_data w' = Inl x"
    by (simp add: get_status_data_def same_files_def)
  ultimately show ?thesis using assms by (simp add: update_status_unreadable)
next
  case (Inr sd)
  then have Some: "status_file w = Holds sd" by (simp add: get_status_data_Inr)
  then have s': "status_file w' = Holds sd" using assms by (simp add: same_files_def)
  have dd: "get_day_data w' = get_day_data w"
    using assms by (simp add: same_files_def get_day_data_def)
  show ?thesis
  proof (cases "isOpen sd = status")
    case True
    with Some s' assms show ?thesis by (simp add: update_status_same)
  next
    case False
    let ?s = "stamped status e sd"
    have w1: "same_files (write_status ?s w) (write_status ?s w')"
      using assms by (simp add: same_files_def write_status_def)
    have sf: "same_files (status_to_firebase (write_status ?s w))
                (status_to_firebase (write_status ?s w'))"
      using w1 by (simp add: same_files_def status_to_firebase_files)
    have ab: "same_files
        (if c then send_full_data_to_db (write_status ?s w) else write_status ?s w)
        (if c then send_full_data_to_db (write_status ?s w') else write_status ?s w')" for c
      using w1 by (simp add: same_files_def send_full_data_to_db_files)
    have tp: "fst (then_push (current_openings_to_json e a))
                = fst (then_push (current_openings_to_json e b))
            \<and> same_files (snd (then_push (current_openings_to_json e a)))
                (snd (then_push (current_openings_to_json e b)))" if "same_files a b" for a b
      using current_openings_to_json_same_files [OF that, of e]
      by (intro then_push_same_files) simp_all
    show ?thesis
    proof (cases "status = 0 \<and> lastOpened sd \<noteq> 0")
      case c: False
      show ?thesis
        unfolding update_status_push_only [OF Some False c] update_status_push_only [OF s' False c]
        using sf by simp
    next
      case c: True
      note unf = update_status_pairing [OF Some False c, of e]
        update_status_pairing [OF s' False c, of e]
      show ?thesis
      proof (cases "get_day_data w")
        case (Inl x)
        then show ?thesis unfolding unf dd using w1 by simp
      next
        case d: (Inr d)
        show ?thesis
        proof (cases d)
          case Nil
          with d show ?thesis unfolding unf dd using w1 by simp
        next
          case (Cons p rest)
          with d show ?thesis unfolding unf dd
            using tp [OF ab, of "today e \<noteq> fst p"] by simp
        qed
      qed
    qed
  qed
qed

text \<open>The only exceptions that leave \<open>update_status\<close> come from the local files.\<close>

lemma current_openings_to_json_raises:
  "fst (current_openings_to_json e w) = None \<or> fst (current_openings_to_json e w) = Some FileError"
  by (auto simp add: current_openings_to_json_def io_defs split: option.splits json_file.splits)

lemma update_status_raises:
  "fst (update_status status e w) = None
   \<or> fst (update_status status e w) = Some FileError
   \<or> fst (update_status status e w) = Some StopIteration"
proof (cases "get_status_data w")
  case (Inl x)
  then have "x = FileError" by (auto simp add: get_status_data_def split: json_file.splits)
  with Inl show ?thesis by (simp add: update_status_unreadable)
next
  case (Inr sd)
  then have Some: "status_file w = Holds sd" by (simp add: get_status_data_Inr)
  show ?thesis
  proof (cases "isOpen sd = status")
    case True
    with Some show ?thesis by (simp add: update_status_same)
  next
    case False
    show ?thesis
    proof (cases "status = 0 \<and> lastOpened sd \<noteq> 0")
      case c: False
      show ?thesis unfolding update_status_push_only [OF Some False c] by simp
    next
      case c: True
      have r: "fst (then_push (current_openings_to_json e a)) = None
             \<or> fst (then_push (current_openings_to_json e a)) = Some FileError" for a
        using current_openings_to_json_raises [of e a] by (simp add: then_push_fst)
      show ?thesis
      proof (cases "get_day_data w")
        case (Inl x)
        then have "x = FileError" by (rule get_day_data_Inl)
        with Inl show ?thesis unfolding update_status_pairing [OF Some False c] by simp
      next
        case d: (Inr d)
        show ?thesis
        proof (cases d)
          case Nil
          with d show ?thesis unfolding update_status_pairing [OF Some False c] by simp
        next
          case (Cons p rest)
          with d have eq: "update_status status e w =
              then_push (current_openings_to_json e
                 (if today e \<noteq> fst p
                  then send_full_data_to_db (write_status (stamped status e sd) w)
                  else write_status (stamped status e sd) w))"
            by (simp add: update_status_pairing [OF Some False c])
          show ?thesis unfolding eq using r by blast
        qed
      qed
    qed
  qed
qed

text \<open>
  Claim C8. Whatever the outcomes \<open>ns\<close> of the remote calls (any of them may fail), no
  remote failure leaves \<open>update_status\<close>: it returns or raises exactly as in the run
  where every remote call goes through, and both files end as in that run, so nothing
  local is rolled back. With both files readable and an entry in the day file it returns
  normally, and the status file holds the record the handler wrote before the remote
  calls.
\<close>

theorem remote_failures_swallowed:
  "fst (update_status status e (w\<lparr>net := ns\<rparr>)) \<noteq> Some RemoteError
   \<and> fst (update_status status e (w\<lparr>net := ns\<rparr>)) =
       fst (update_status status e (w\<lparr>net := []\<rparr>))
   \<and> status_file (snd (update_status status e (w\<lparr>net := ns\<rparr>))) =
       status_file (snd (update_status status e (w\<lparr>net := []\<rparr>)))
   \<and> day_file (snd (update_status status e (w\<lparr>net := ns\<rparr>))) =
       day_file (snd (update_status status e (w\<lparr>net := []\<rparr>)))
   \<and> (status_file w = Holds sd \<and> day_file w = Holds d \<and> d \<noteq> [] \<longrightarrow>
        fst (update_status status e (w\<lparr>net := ns\<rparr>)) = None
      \<and> status_file (snd (update_status status e (w\<lparr>net := ns\<rparr>))) =
           Holds (if isOpen sd = status then sd
                 else if status = 0 then sd\<lparr>isOpen := 0, lastClosed := now e\<rparr>
                 else sd\<lparr>isOpen := status, lastOpened := now e\<rparr>))"
proof -
  have s: "same_files (w\<lparr>net := ns\<rparr>) (w\<lparr>net := []\<rparr>)"
    by (simp add: same_files_def)
  have c0: "fst (update_status status e (w\<lparr>net := ns\<rparr>)) \<noteq> Some RemoteError"
    using update_status_raises [of status e "w\<lparr>net := ns\<rparr>"] by auto
  have c1: "fst (update_status status e (w\<lparr>net := ns\<rparr>)) =
              fst (update_status status e (w\<lparr>net := []\<rparr>))"
    and c2: "same_files (snd (update_status status e (w\<lparr>net := ns\<rparr>)))
               (snd (update_status status e (w\<lparr>net := []\<rparr>)))"
    using update_status_same_files [OF s, of status e] by simp_all
  have c3: "fst (update_status status e (w\<lparr>net := ns\<rparr>)) = None
      \<and> status_file (snd (update_status status e (w\<lparr>net := ns\<rparr>))) =
           Holds (if isOpen sd = status then sd
                 else if status = 0 then sd\<lparr>isOpen := 0, lastClosed := now e\<rparr>
                 else sd\<lparr>isOpen := status, lastOpened := now e\<rparr>)"
    if h: "status_file w = Holds sd" "day_file w = Holds d" "d \<noteq> []"
  proof -
    have a: "status_file (w\<lparr>net := ns\<rparr>) = Holds sd" "day_file (w\<lparr>net := ns\<rparr>) = Holds d"
      using h by simp_all
    show ?thesis
      using update_status_returns [OF a h(3), of status e]
        update_status_status_file [OF a h(3), of status e]
      by (simp add: stamped_def)
  qed
  show ?thesis
    using c0 c1 c2 c3 unfolding same_files_def by blast
qed

theorem remote_failures_swallowed_witness:
  "fst (update_status 0 e_day2 (w_open\<lparr>net := [False, False]\<rparr>)) = None
   \<and> status_file (snd (update_status 0 e_day2 (w_open\<lparr>net := [False, False]\<rparr>))) =
       Holds \<lparr>isOpen = 0, lastOpened = 250, lastClosed = 90000\<rparr>
   \<and> day_file (snd (update_status 0 e_day2 (w_open\<lparr>net := [False, False]\<rparr>))) =
       day_file (snd (update_status 0 e_day2 (w_open\<lparr>net := []\<rparr>)))"
proof -
  let ?sd = "\<lparr>isOpen = 1, lastOpened = 250, lastClosed = 200\<rparr>"
  let ?d = "[(''2024-01-01'',
              \<lparr>numOfOpenings = 1, openings = [\<lparr>opened = 100, closed = 200\<rparr>]\<rparr>)]"
  note t = remote_failures_swallowed
    [where status = 0 and e = e_day2 and w = w_open and ns = "[False, False]"
       and sd = ?sd and d = ?d]
  have h: "status_file w_open = Holds ?sd \<and> day_file w_open = Holds ?d \<and> ?d \<noteq> []"
    by (simp add: w_open_def)
  have a: "fst (update_status 0 e_day2 (w_open\<lparr>net := [False, False]\<rparr>)) = None"
    and b: "status_file (snd (update_status 0 e_day2 (w_open\<lparr>net := [False, False]\<rparr>))) =
       Holds (if isOpen ?sd = 0 then ?sd
             else if (0::int) = 0 then ?sd\<lparr>isOpen := 0, lastClosed := now e_day2\<rparr>
             else ?sd\<lparr>isOpen := 0, lastOpened := now e_day2\<rparr>)"
    and c: "day_file (snd (update_status 0 e_day2 (w_open\<lparr>net := [False, False]\<rparr>))) =
       day_file (snd (update_status 0 e_day2 (w_open\<lparr>net := []\<rparr>)))"
    using t h by blast+
  show ?thesis
    using a b c by (simp add: e_day2_def)
qed

section \<open>The day file as a store\<close>

declare digits.simps [simp del]

declare parse_value.simps [simp del] parse_elems.simps [simp del] parse_members.simps [simp del]

subsection \<open>Integers\<close>

lemma of_char_digit_char: "d < 10 \<Longrightarrow> (of_char (digit_char d) :: nat) = 48 + d"
  by (simp add: digit_char_def)

lemma digit_char_props:
  assumes "d < 10"
  shows "is_digit (digit_char d)" and "digit_val (digit_char d) = d"
    and "digit_char d = CHR ''0'' \<longleftrightarrow> d = 0"
proof -
  note v = of_char_digit_char [OF assms]
  show "is_digit (digit_char d)" using assms by (simp add: is_digit_def v)
  show "digit_val (digit_char d) = d" by (simp add: digit_val_def v)
  have "digit_char d = CHR ''0'' \<longleftrightarrow> (of_char (digit_char d) :: nat) = of_char (CHR ''0'')"
    by (simp only: of_char_eq_iff)
  also have "\<dots> \<longleftrightarrow> d = 0" unfolding v by simp
  finally show "digit_char d = CHR ''0'' \<longleftrightarrow> d = 0" .
qed

lemma digits_nonempty: "digits n \<noteq> []"
  by (subst digits.simps) simp

lemma digits_all: "\<forall>c \<in> set (digits n). is_digit c"
proof (induction n rule: digits.induct)
  case (1 n)
  show ?case
  proof (cases "n < 10")
    case True
    then show ?thesis by (subst digits.simps) (simp add: digit_char_props)
  next
    case False
    with 1 show ?thesis by (subst digits.simps) (simp add: digit_char_props)
  qed
qed

lemma digits_value: "foldl (\<lambda>a d. 10 * a + digit_val d) 0 (digits n) = n"
proof (induction n rule: digits.induct)
  case (1 n)
  show ?case
  proof (cases "n < 10")
    case True
    then show ?thesis by (subst digits.simps) (simp add: digit_char_props)
  next
    case False
    with 1 show ?thesis by (subst digits.simps) (simp add: digit_char_props)
  qed
qed

lemma digits_hd: "0 < n \<Longrightarrow> hd (digits n) \<noteq> CHR ''0''"
proof (induction n rule: digits.induct)
  case (1 n)
  show ?case
  proof (cases "n < 10")
    case True
    with 1(2) show ?thesis by (subst digits.simps) (simp add: digit_char_props)
  next
    case False
    then have "0 < n div 10" by simp
    with 1(1) False have "hd (digits (n div 10)) \<noteq> CHR ''0''" by simp
    with False show ?thesis by (subst digits.simps) (simp add: digits_nonempty)
  qed
qed

lemma parse_nat_digits:
  assumes "no_digit q"
  shows "parse_nat (digits n @ q) = Some (n, q)"
proof (cases "n = 0")
  case True
  have "digit_char 0 = CHR ''0''" using digit_char_props(3) [of 0] by simp
  with True show ?thesis
    by (subst digits.simps) (simp add: parse_nat_def)
next
  case False
  obtain c r where cr: "digits n = c # r"
    using digits_nonempty [of n] by (cases "digits n") auto
  have c0: "c \<noteq> CHR ''0''" using digits_hd [of n] False cr by simp
  have cd: "is_digit c" using digits_all [of n] cr by simp
  have tw: "takeWhile is_digit (digits n @ q) = digits n"
    using digits_all [of n] assms by (cases q) (auto simp add: no_digit_def takeWhile_append2)
  have dw: "dropWhile is_digit (digits n @ q) = q"
    using digits_all [of n] assms by (cases q) (auto simp add: no_digit_def dropWhile_append2)
  have "parse_nat (digits n @ q) =
      Some (foldl (\<lambda>a d. 10 * a + digit_val d) 0 (takeWhile is_digit (digits n @ q)),
            dropWhile is_digit (digits n @ q))"
    using c0 cd by (simp add: parse_nat_def cr)
  then show ?thesis by (simp add: tw dw digits_value)
qed

lemma parse_int_show_int:
  assumes "int_end q"
  shows "parse_int (show_int i @ q) = Some (i, q)"
proof (cases "i < 0")
  case True
  then show ?thesis
    using assms by (simp add: parse_int_def show_int_def parse_nat_digits int_end_def)
next
  case False
  obtain c r where cr: "digits (nat i) = c # r"
    using digits_nonempty [of "nat i"] by (cases "digits (nat i)") auto
  have "is_digit c" using digits_all [of "nat i"] cr by simp
  then have "c \<noteq> CHR ''-''" by (auto simp add: is_digit_def)
  moreover have "parse_nat (c # r @ q) = Some (nat i, q)"
    using parse_nat_digits [of q "nat i"] assms cr by (simp add: int_end_def)
  ultimately show ?thesis
    using False assms by (simp add: parse_int_def show_int_def cr int_end_def)
qed

subsection \<open>Strings\<close>

lemma unhex_hex_char: "d < 16 \<Longrightarrow> unhex (hex_char d) = Some d"
  by (auto simp add: unhex_def hex_char_def Let_def)

lemma hex4_byte:
  assumes "n < 256"
  shows "hex4 (CHR ''0'') (CHR ''0'') (hex_char (n div 16)) (hex_char (n mod 16)) = Some n"
proof -
  have "n div 16 < 16" using assms by simp
  then show ?thesis
    by (simp add: hex4_def unhex_hex_char) (simp add: unhex_def)
qed

lemma parse_chars_escape: "parse_chars (escape_char c @ s) = cons_char c (parse_chars s)"
proof -
  have n: "(of_char c :: nat) < 256" by simp
  show ?thesis
    using hex4_byte [OF n]
    by (auto simp add: escape_char_def unescape_def)
qed

lemma parse_chars_dump:
  "parse_chars (concat (map escape_char s) @ CHR 0x22 # q) = Some (s, q)"
  by (induction s) (simp_all add: parse_chars_escape cons_char_def)


subsection \<open>Values\<close>

lemma sep_int_end: "sep q \<Longrightarrow> int_end q"
  by (cases q) (auto simp add: sep_def int_end_def no_digit_def float_mark_def is_digit_def)

lemma sep_cons [simp]: "sep (CHR '','' # q)" "sep (CHR '']'' # q)" "sep (CHR ''}'' # q)" "sep []"
  by (simp_all add: sep_def)

lemma skip_ws_starts_ok: "starts_ok s \<Longrightarrow> skip_ws s = s"
  by (cases s) (auto simp add: starts_ok_def skip_ws_def)

lemma starts_ok_append: "starts_ok s \<Longrightarrow> starts_ok (s @ t)"
  by (cases s) (auto simp add: starts_ok_def)

lemma skip_ws_space: "skip_ws (CHR '' '' # s) = skip_ws s"
  by (simp add: skip_ws_def is_ws_def)

lemma skip_ws_punct [simp]:
  "skip_ws (CHR '','' # q) = CHR '','' # q" "skip_ws (CHR '']'' # q) = CHR '']'' # q"
  "skip_ws (CHR ''}'' # q) = CHR ''}'' # q" "skip_ws (CHR '':'' # q) = CHR '':'' # q"
  by (simp_all add: skip_ws_def is_ws_def)

lemma show_int_head:
  "\<exists>c r. show_int i = c # r \<and> (is_digit c \<or> c = CHR ''-'')"
proof -
  obtain c r where cr: "digits (nat i) = c # r"
    using digits_nonempty [of "nat i"] by (cases "digits (nat i)") auto
  have "is_digit c" using digits_all [of "nat i"] cr by simp
  with cr show ?thesis by (simp add: show_int_def)
qed

lemma starts_ok_show_int: "starts_ok (show_int i)"
  using show_int_head [of i] by (auto simp add: starts_ok_def is_ws_def is_digit_def)

lemma starts_ok_dump_str: "starts_ok (dump_str k @ t)"
  by (simp add: starts_ok_def dump_str_def is_ws_def)

lemma starts_ok_dumps: "starts_ok (dumps v)"
  by (cases v) (simp_all add: starts_ok_show_int starts_ok_dump_str [of _ "[]", simplified],
      simp_all add: starts_ok_def is_ws_def)

lemma starts_ok_join:
  assumes "xs \<noteq> []" and "\<forall>x \<in> set xs. starts_ok x"
  shows "starts_ok (join xs)"
proof (cases xs)
  case Nil
  with assms show ?thesis by simp
next
  case (Cons x ys)
  with assms show ?thesis by (cases ys) (simp_all add: starts_ok_append)
qed

lemma parse_value_int:
  assumes "int_end q"
  shows "parse_value (Suc n) (show_int i @ q) = Some (JInt i, q)"
proof -
  obtain c r where cr: "show_int i = c # r" and c: "is_digit c \<or> c = CHR ''-''"
    using show_int_head [of i] by blast
  from c have "c \<noteq> CHR 0x22" "c \<noteq> CHR ''[''" "c \<noteq> CHR ''{''"
    by (auto simp add: is_digit_def)
  then have "parse_value (Suc n) (show_int i @ q) =
      map_option (\<lambda>(i, q). (JInt i, q)) (parse_int (show_int i @ q))"
    by (simp add: parse_value.simps cr)
  then show ?thesis by (simp add: parse_int_show_int [OF assms])
qed

lemma parse_value_str:
  "parse_value (Suc n) (dump_str s @ q) = Some (JStr s, q)"
  by (simp add: parse_value.simps dump_str_def parse_chars_dump)

lemma parse_value_arr:
  assumes "starts_ok s"
  shows "parse_value (Suc n) (CHR ''['' # s) =
           map_option (\<lambda>(vs, q). (JArr vs, q)) (parse_elems n s)"
  using assms skip_ws_starts_ok [OF assms]
  by (cases s) (auto simp add: parse_value.simps starts_ok_def)

lemma parse_value_obj:
  assumes "starts_ok s"
  shows "parse_value (Suc n) (CHR ''{'' # s) =
           map_option (\<lambda>(ms, q). (JObj (dict_of ms), q)) (parse_members n s)"
  using assms skip_ws_starts_ok [OF assms]
  by (cases s) (auto simp add: parse_value.simps starts_ok_def)

lemma parse_elems_last:
  assumes "parse_value n s = Some (v, CHR '']'' # q)"
  shows "parse_elems (Suc n) s = Some ([v], q)"
  using assms by (simp add: parse_elems.simps)

lemma parse_elems_more:
  assumes "parse_value n s = Some (v, CHR '','' # CHR '' '' # t)" and "starts_ok t"
  shows "parse_elems (Suc n) s = map_option (\<lambda>(vs, q'). (v # vs, q')) (parse_elems n t)"
  using assms by (simp add: parse_elems.simps skip_ws_space skip_ws_starts_ok)

lemma parse_members_last:
  assumes "parse_value n s = Some (v, CHR ''}'' # q)" and "starts_ok s"
  shows "parse_members (Suc n) (dump_str k @ '': '' @ s) = Some ([(k, v)], q)"
  using assms
  by (simp add: parse_members.simps dump_str_def parse_chars_dump skip_ws_space skip_ws_starts_ok)

lemma parse_members_more:
  assumes "parse_value n s = Some (v, CHR '','' # CHR '' '' # t)" and "starts_ok s"
    and "starts_ok t"
  shows "parse_members (Suc n) (dump_str k @ '': '' @ s) =
           map_option (\<lambda>(ms, q'). ((k, v) # ms, q')) (parse_members n t)"
  using assms
  by (simp add: parse_members.simps dump_str_def parse_chars_dump skip_ws_space skip_ws_starts_ok)


lemma dump_member_pair: "dump_member (k, v) = dump_str k @ '': '' @ dumps v"
  by (simp add: dump_member_def)

lemma starts_ok_dump_member: "starts_ok (dump_member m)"
  by (simp add: dump_member_def starts_ok_dump_str)

lemma parse_elems_join:
  assumes "\<And>v n q. v \<in> set vs \<Longrightarrow> 2 * length (dumps v) \<le> n \<Longrightarrow> sep q \<Longrightarrow>
             parse_value n (dumps v @ q) = Some (v, q)"
    and "vs \<noteq> []" and "2 * length (join (map dumps vs)) + 2 \<le> n"
  shows "parse_elems n (join (map dumps vs) @ CHR '']'' # q) = Some (vs, q)"
  using assms
proof (induction vs arbitrary: n)
  case Nil
  then show ?case by simp
next
  case (Cons v vs)
  obtain m where n: "n = Suc m" using Cons.prems(3) by (cases n) auto
  show ?case
  proof (cases vs)
    case Nil
    have "parse_value m (dumps v @ CHR '']'' # q) = Some (v, CHR '']'' # q)"
      using Cons.prems(3) n Nil by (intro Cons.prems(1)) simp_all
    then show ?thesis using Nil n by (simp add: parse_elems_last)
  next
    case (Cons v' vs')
    let ?t = "join (map dumps vs) @ CHR '']'' # q"
    have t: "starts_ok ?t"
      using Cons by (intro starts_ok_append starts_ok_join) (simp_all add: starts_ok_dumps)
    have "parse_value m (dumps v @ CHR '','' # CHR '' '' # ?t) = Some (v, CHR '','' # CHR '' '' # ?t)"
      using Cons.prems(3) n Cons by (intro Cons.prems(1)) simp_all
    then have "parse_elems (Suc m) (dumps v @ CHR '','' # CHR '' '' # ?t) =
        map_option (\<lambda>(vs, q'). (v # vs, q')) (parse_elems m ?t)"
      using t by (rule parse_elems_more)
    moreover have "parse_elems m ?t = Some (vs, q)"
      using Cons.prems(1,3) n Cons by (intro Cons.IH) simp_all
    ultimately show ?thesis using Cons n by simp
  qed
qed

lemma parse_members_join:
  assumes "\<And>m n q. m \<in> set ms \<Longrightarrow> 2 * length (dumps (snd m)) \<le> n \<Longrightarrow> sep q \<Longrightarrow>
             parse_value n (dumps (snd m) @ q) = Some (snd m, q)"
    and "ms \<noteq> []" and "2 * length (join (map dump_member ms)) + 2 \<le> n"
  shows "parse_members n (join (map dump_member ms) @ CHR ''}'' # q) = Some (ms, q)"
  using assms
proof (induction ms arbitrary: n)
  case Nil
  then show ?case by simp
next
  case (Cons p ms)
  obtain k v where p: "p = (k, v)" by (cases p)
  obtain m where n: "n = Suc m" using Cons.prems(3) by (cases n) auto
  show ?case
  proof (cases ms)
    case Nil
    have "parse_value m (dumps v @ CHR ''}'' # q) = Some (v, CHR ''}'' # q)"
      using Cons.prems(3) n Nil p Cons.prems(1) [of p m "CHR ''}'' # q"]
      by (simp add: dump_member_pair)
    then have "parse_members (Suc m) (dump_str k @ '': '' @ dumps v @ CHR ''}'' # q) =
        Some ([(k, v)], q)"
      by (rule parse_members_last) (simp add: starts_ok_append starts_ok_dumps)
    then show ?thesis using Nil n p by (simp add: dump_member_pair)
  next
    case (Cons p' ms')
    let ?t = "join (map dump_member ms) @ CHR ''}'' # q"
    have t: "starts_ok ?t"
      using Cons
      by (intro starts_ok_append starts_ok_join) (auto simp add: starts_ok_dump_member)
    have "parse_value m (dumps v @ CHR '','' # CHR '' '' # ?t) = Some (v, CHR '','' # CHR '' '' # ?t)"
      using Cons.prems(3) n Cons p Cons.prems(1) [of p m "CHR '','' # CHR '' '' # ?t"]
      by (simp add: dump_member_pair)
    then have "parse_members (Suc m) (dump_str k @ '': '' @ dumps v @ CHR '','' # CHR '' '' # ?t) =
        map_option (\<lambda>(ms, q'). ((k, v) # ms, q')) (parse_members m ?t)"
      using t by (intro parse_members_more) (simp_all add: starts_ok_append starts_ok_dumps)
    moreover have "parse_members m ?t = Some (ms, q)"
      using Cons.prems(1,3) n Cons by (intro Cons.IH) simp_all
    ultimately show ?thesis using Cons n p by (simp add: dump_member_pair)
  qed
qed

lemma dict_set_fresh: "k \<notin> fst ` set d \<Longrightarrow> dict_set k v d = d @ [(k, v)]"
  by (induction d) auto

lemma dict_of_distinct_aux:
  "distinct (map fst (acc @ ps)) \<Longrightarrow> foldl (\<lambda>d (k, v). dict_set k v d) acc ps = acc @ ps"
proof (induction ps arbitrary: acc)
  case Nil
  then show ?case by simp
next
  case (Cons p ps)
  obtain k v where p: "p = (k, v)" by (cases p)
  have "k \<notin> fst ` set acc" using Cons.prems p by auto
  then have "dict_set k v acc = acc @ [(k, v)]" by (rule dict_set_fresh)
  moreover have "distinct (map fst ((acc @ [(k, v)]) @ ps))" using Cons.prems p by simp
  ultimately show ?case using Cons.IH [of "acc @ [(k, v)]"] p by simp
qed

lemma dict_of_distinct: "distinct (map fst ps) \<Longrightarrow> dict_of ps = ps"
  using dict_of_distinct_aux [of "[]" ps] by (simp add: dict_of_def)

lemma dumps_obj: "dumps (JObj ms) = CHR ''{'' # join (map dump_member ms) @ ''}''"
proof -
  have "(\<lambda>(k, v). dump_str k @ '': '' @ dumps v) = dump_member"
    by (auto simp add: dump_member_def fun_eq_iff)
  then show ?thesis by simp
qed

lemma parse_value_dumps:
  assumes "wf_json v" and "2 * length (dumps v) \<le> n" and "sep q"
  shows "parse_value n (dumps v @ q) = Some (v, q)"
  using assms
proof (induction v arbitrary: n q)
  case (JInt i)
  have "dumps (JInt i) \<noteq> []" using show_int_head [of i] by auto
  then obtain m where "n = Suc m" using JInt.prems(2) by (cases n) auto
  then show ?case using JInt.prems(3) by (simp add: parse_value_int sep_int_end)
next
  case (JStr s)
  obtain m where "n = Suc m" using JStr.prems(2) by (cases n) (auto simp add: dump_str_def)
  then show ?case by (simp add: parse_value_str)
next
  case (JArr vs)
  obtain m where n: "n = Suc m" using JArr.prems(2) by (cases n) auto
  show ?case
  proof (cases "vs = []")
    case True
    then show ?thesis using n by (simp add: parse_value.simps)
  next
    case False
    let ?t = "join (map dumps vs) @ CHR '']'' # q"
    have t: "starts_ok ?t"
      using False by (intro starts_ok_append starts_ok_join) (simp_all add: starts_ok_dumps)
    have "parse_elems m ?t = Some (vs, q)"
    proof (rule parse_elems_join)
      fix v n q
      assume "v \<in> set vs" "2 * length (dumps v) \<le> n" "sep q"
      then show "parse_value n (dumps v @ q) = Some (v, q)"
        using JArr.IH JArr.prems(1) by simp
    next
      show "vs \<noteq> []" by (rule False)
    next
      show "2 * length (join (map dumps vs)) + 2 \<le> m" using JArr.prems(2) n by simp
    qed
    then show ?thesis using n parse_value_arr [OF t, of m] by simp
  qed
next
  case (JObj ms)
  obtain m where n: "n = Suc m" using JObj.prems(2) by (cases n) auto
  have d: "dict_of ms = ms" using JObj.prems(1) by (simp add: dict_of_distinct)
  show ?case
  proof (cases "ms = []")
    case True
    then show ?thesis using n by (simp add: parse_value.simps)
  next
    case False
    let ?t = "join (map dump_member ms) @ CHR ''}'' # q"
    have t: "starts_ok ?t"
      using False
      by (intro starts_ok_append starts_ok_join) (auto simp add: starts_ok_dump_member)
    have len: "2 * length (join (map dump_member ms)) + 2 \<le> m"
      using JObj.prems(2) n unfolding dumps_obj by simp
    have "parse_members m ?t = Some (ms, q)"
    proof (rule parse_members_join)
      fix p n q
      assume p: "p \<in> set ms" and "2 * length (dumps (snd p)) \<le> n" "sep q"
      moreover have "snd p \<in> Basic_BNFs.snds p" by (cases p) simp
      moreover have "wf_json (snd p)" using JObj.prems(1) p by simp
      ultimately show "parse_value n (dumps (snd p) @ q) = Some (snd p, q)"
        using JObj.IH [of p "snd p" n q] by simp
    next
      show "ms \<noteq> []" by (rule False)
    next
      show "2 * length (join (map dump_member ms)) + 2 \<le> m" by (rule len)
    qed
    then show ?thesis using n d parse_value_obj [OF t, of m] unfolding dumps_obj by simp
  qed
qed

lemma loads_dumps:
  assumes "wf_json v"
  shows "loads (dumps v) = Some v"
proof -
  have "parse_value (2 * length (dumps v) + 2) (dumps v @ []) = Some (v, [])"
    using assms by (intro parse_value_dumps) simp_all
  then show ?thesis
    by (simp add: loads_def skip_ws_starts_ok starts_ok_dumps) (simp add: skip_ws_def)
qed


subsection \<open>Day dictionaries\<close>

lemma episode_of_json_of: "episode_of_json (json_of_episode ep) = Some ep"
  by (simp add: episode_of_json_def json_of_episode_def)

lemma episodes_of_json_of: "those (map episode_of_json (map json_of_episode es)) = Some es"
  by (induction es) (simp_all add: episode_of_json_of)

lemma entry_of_json_of: "entry_of_json (json_of_entry en) = Some en"
  using episodes_of_json_of [of "openings en"]
  by (simp add: entry_of_json_def json_of_entry_def)

lemma day_of_json_of: "day_of_json (json_of_day d) = Some d"
proof -
  have "those (map (\<lambda>(k, v). map_option (Pair k) (entry_of_json v))
                (map (\<lambda>(k, en). (k, json_of_entry en)) d)) = Some d"
    by (induction d) (auto simp add: entry_of_json_of)
  then show ?thesis by (simp add: day_of_json_def json_of_day_def)
qed

lemma wf_json_of_episode: "wf_json (json_of_episode ep)"
  by (simp add: json_of_episode_def)

lemma wf_json_of_entry: "wf_json (json_of_entry en)"
  by (auto simp add: json_of_entry_def wf_json_of_episode)

lemma wf_json_of_day: "distinct (map fst d) \<Longrightarrow> wf_json (json_of_day d)"
proof -
  assume "distinct (map fst d)"
  then show ?thesis
    by (auto simp add: json_of_day_def wf_json_of_entry comp_def case_prod_beta)
qed

lemma dumps_nonempty: "dumps v \<noteq> []"
  using starts_ok_dumps [of v] by (auto simp add: starts_ok_def)

subsection \<open>Write, then read\<close>

text \<open>
  Claim C9. For every day dictionary \<open>X\<close> (no date twice, as in any Python dictionary):
  the text \<open>json.dump\<close> writes for \<open>X\<close> is not empty and \<open>json.load\<close> reads it back as
  exactly \<open>X\<close>; this is the state \<open>write_day\<close> leaves the day file in, so that
  \<open>get_day_data\<close> after \<open>write_day X\<close> returns \<open>X\<close>.
\<close>

theorem day_file_round_trip:
  assumes "distinct (map fst X)"
  shows "day_file_of_text (json_dump_day X) = Holds X
       \<and> day_file (write_day X w) = day_file_of_text (json_dump_day X)
       \<and> get_day_data (write_day X w) = Inr X"
proof -
  have "day_file_of_text (json_dump_day X) = Holds X"
    using loads_dumps [OF wf_json_of_day [OF assms]]
    by (simp add: day_file_of_text_def json_dump_day_def dumps_nonempty day_of_json_of)
  then show ?thesis by (simp add: write_day_def get_day_data_def)
qed

theorem day_file_round_trip_witness:
  "day_file_of_text (json_dump_day day_one) = Holds day_one
   \<and> get_day_data (write_day day_one w_blank) = Inr day_one"
  using day_file_round_trip [of day_one w_blank]
  by (simp add: day_one_def)

text \<open>
  The hypothesis is needed: a list with a date twice is not a dictionary, and the text
  written for it reads back with the later entry only.
\<close>

lemma day_file_duplicate_date:
  "day_file_of_text (json_dump_day
      [(''d'', \<lparr>numOfOpenings = 0, openings = []\<rparr>),
       (''d'', \<lparr>numOfOpenings = 1, openings = [\<lparr>opened = 1, closed = 2\<rparr>]\<rparr>)]) =
   Holds [(''d'', \<lparr>numOfOpenings = 1, openings = [\<lparr>opened = 1, closed = 2\<rparr>]\<rparr>)]"
  by code_simp

text \<open>The text of the dictionary \<open>day_one\<close>, as Python writes it.\<close>

lemma day_one_text: \<open>json_dump_day day_one =
   ''{"2024-01-01": {"numOfOpenings": 1, "openings": [{"opened": 100, "closed": 200}]}}''\<close>
  by code_simp

end
